theory Spec2Isabelle
  imports Main
begin

section \<open>Python values used by the bot\<close>

text \<open>
  A Python \<open>str\<close> is a sequence of code points and \<open>len\<close> counts them, so a
  \<open>str\<close> is modelled as the list of its code points (naturals; Python's own strings
  only hold values below \<open>0x110000\<close>). A \<open>bytes\<close> object is the list of its
  byte values (naturals below 256). Fixed ASCII text of the program (dictionary keys,
  trigger names) is written as an Isabelle \<open>string\<close>.
\<close>

type_synonym pystr = "nat list"
type_synonym bytes = "nat list"

text \<open>The exceptions that the modelled code paths raise.\<close>

datatype py_error =
    UnicodeEncodeError
  | UnicodeDecodeError
  | BinasciiError
  | ValueError
  | HTTPException
  | AttributeError
  | TypeError
  | RecursionError
  | OverflowError
  | FirebaseInitError

definition emit :: "'a \<Rightarrow> py_error + 'a list \<Rightarrow> py_error + 'a list" where
  "emit x r = (case r of Inl e \<Rightarrow> Inl e | Inr xs \<Rightarrow> Inr (x # xs))"

subsection \<open>\<open>str.encode()\<close> and \<open>bytes.decode()\<close>: strict UTF-8\<close>

text \<open>
  \<open>zoom_name.encode()\<close> uses the default codec, UTF-8, with strict error handling: a
  surrogate code point (\<open>U+D800\<close> to \<open>U+DFFF\<close>) raises \<open>UnicodeEncodeError\<close>.
\<close>

definition utf8_char :: "nat \<Rightarrow> py_error + bytes" where
  "utf8_char c =
     (if c < 0x80 then Inr [c]
      else if c < 0x800 then Inr [0xC0 + c div 64, 0x80 + c mod 64]
      else if c < 0x10000 then
        (if 0xD800 \<le> c \<and> c \<le> 0xDFFF then Inl UnicodeEncodeError
         else Inr [0xE0 + c div 4096, 0x80 + c div 64 mod 64, 0x80 + c mod 64])
      else Inr [0xF0 + c div 262144, 0x80 + c div 4096 mod 64,
                0x80 + c div 64 mod 64, 0x80 + c mod 64])"

fun str_encode :: "pystr \<Rightarrow> py_error + bytes" where
  "str_encode [] = Inr []"
| "str_encode (c # cs) =
     (case utf8_char c of
        Inl e \<Rightarrow> Inl e
      | Inr bs \<Rightarrow> (case str_encode cs of Inl e \<Rightarrow> Inl e | Inr r \<Rightarrow> Inr (bs @ r)))"

text \<open>
  \<open>bytes.decode()\<close> accepts exactly the well-formed UTF-8 byte sequences: no overlong
  forms (lead bytes \<open>C0\<close>, \<open>C1\<close>; \<open>E0\<close> followed by less than \<open>A0\<close>; \<open>F0\<close>
  followed by less than \<open>90\<close>), no surrogates (\<open>ED\<close> followed by more than
  \<open>9F\<close>), nothing above \<open>U+10FFFF\<close>, no truncated sequence. Anything else raises
  \<open>UnicodeDecodeError\<close>.
\<close>

definition cont :: "nat \<Rightarrow> bool" where
  "cont b = (0x80 \<le> b \<and> b \<le> 0xBF)"

definition second_ok :: "nat \<Rightarrow> nat \<Rightarrow> bool" where
  "second_ok b0 b1 =
     (if b0 = 0xE0 then 0xA0 \<le> b1 \<and> b1 \<le> 0xBF
      else if b0 = 0xED then 0x80 \<le> b1 \<and> b1 \<le> 0x9F
      else if b0 = 0xF0 then 0x90 \<le> b1 \<and> b1 \<le> 0xBF
      else if b0 = 0xF4 then 0x80 \<le> b1 \<and> b1 \<le> 0x8F
      else cont b1)"

fun bytes_decode :: "bytes \<Rightarrow> py_error + pystr" where
  "bytes_decode [] = Inr []"
| "bytes_decode (b0 # bs) =
     (if b0 < 0x80 then emit b0 (bytes_decode bs)
      else if 0xC2 \<le> b0 \<and> b0 \<le> 0xDF then
        (case bs of
           b1 # r \<Rightarrow>
             if cont b1 then emit ((b0 - 0xC0) * 64 + (b1 - 0x80)) (bytes_decode r)
             else Inl UnicodeDecodeError
         | _ \<Rightarrow> Inl UnicodeDecodeError)
      else if 0xE0 \<le> b0 \<and> b0 \<le> 0xEF then
        (case bs of
           b1 # b2 # r \<Rightarrow>
             if second_ok b0 b1 \<and> cont b2
             then emit ((b0 - 0xE0) * 4096 + (b1 - 0x80) * 64 + (b2 - 0x80)) (bytes_decode r)
             else Inl UnicodeDecodeError
         | _ \<Rightarrow> Inl UnicodeDecodeError)
      else if 0xF0 \<le> b0 \<and> b0 \<le> 0xF4 then
        (case bs of
           b1 # b2 # b3 # r \<Rightarrow>
             if second_ok b0 b1 \<and> cont b2 \<and> cont b3
             then emit ((b0 - 0xF0) * 262144 + (b1 - 0x80) * 4096 + (b2 - 0x80) * 64
                        + (b3 - 0x80)) (bytes_decode r)
             else Inl UnicodeDecodeError
         | _ \<Rightarrow> Inl UnicodeDecodeError)
      else Inl UnicodeDecodeError)"

subsection \<open>\<open>base64.b64encode\<close> and \<open>base64.b64decode\<close>\<close>

text \<open>
  The standard alphabet: \<open>A\<close>-\<open>Z\<close>, \<open>a\<close>-\<open>z\<close>, \<open>0\<close>-\<open>9\<close>, \<open>+\<close>, \<open>/\<close>,
  with \<open>=\<close> (61) as padding. The encoder's table sends a sextet to its character
  (\<open>A\<close> is 65, \<open>a\<close> is 97, \<open>0\<close> is 48, \<open>+\<close> is 43, \<open>/\<close> is 47), the
  decoder's table sends a character back to its sextet, or to nothing.
\<close>

definition BASE64_PAD :: nat where
  "BASE64_PAD = 61"

definition table_b2a_base64 :: "nat \<Rightarrow> nat" where
  "table_b2a_base64 n =
     (if n < 26 then 65 + n
      else if n < 52 then 71 + n
      else if n < 62 then n - 4
      else if n = 62 then 43
      else 47)"

definition table_a2b_base64 :: "nat \<Rightarrow> nat option" where
  "table_a2b_base64 c =
     (if 65 \<le> c \<and> c \<le> 90 then Some (c - 65)
      else if 97 \<le> c \<and> c \<le> 122 then Some (c - 71)
      else if 48 \<le> c \<and> c \<le> 57 then Some (c + 4)
      else if c = 43 then Some 62
      else if c = 47 then Some 63
      else None)"

text \<open>
  \<open>b64encode\<close>: three bytes give four sextets; one or two trailing bytes are padded
  with \<open>=\<close> to a full group of four characters.
\<close>

fun b64encode :: "bytes \<Rightarrow> bytes" where
  "b64encode [] = []"
| "b64encode [a] =
     [table_b2a_base64 (a div 4), table_b2a_base64 (a mod 4 * 16), BASE64_PAD, BASE64_PAD]"
| "b64encode [a, b] =
     [table_b2a_base64 (a div 4), table_b2a_base64 (a mod 4 * 16 + b div 16),
      table_b2a_base64 (b mod 16 * 4), BASE64_PAD]"
| "b64encode (a # b # c # r) =
     table_b2a_base64 (a div 4) # table_b2a_base64 (a mod 4 * 16 + b div 16) #
     table_b2a_base64 (b mod 16 * 4 + c div 64) # table_b2a_base64 (c mod 64) # b64encode r"

text \<open>
  \<open>b64decode\<close> is called without \<open>validate=True\<close>, so the decoder
  (\<open>binascii.a2b_base64\<close>, not strict) walks over the characters with the position in
  the current group of four (\<open>quad_pos\<close>), the bits left over from the previous
  character (\<open>leftchar\<close>) and the count of padding characters seen (\<open>pads\<close>):
  \<^item> a padding character ends the input when it completes the group
    (\<open>quad_pos \<ge> 2\<close> and \<open>quad_pos + pads \<ge> 4\<close>), and is skipped otherwise;
  \<^item> a character outside the alphabet is skipped;
  \<^item> an alphabet character contributes six bits;
  \<^item> at the end of the input a group left open raises \<open>binascii.Error\<close>.
  The shifts and masks of the decoder are written with \<open>*\<close>, \<open>div\<close> and
  \<open>mod\<close>; the bit fields it joins never overlap, so \<open>+\<close> is its bitwise or.
\<close>

fun a2b_loop :: "nat \<Rightarrow> nat \<Rightarrow> nat \<Rightarrow> bytes \<Rightarrow> py_error + bytes" where
  "a2b_loop quad_pos leftchar pads [] =
     (if quad_pos \<noteq> 0 then Inl BinasciiError else Inr [])"
| "a2b_loop quad_pos leftchar pads (this_ch # rest) =
     (if this_ch = BASE64_PAD then
        (if quad_pos \<ge> 2 \<and> quad_pos + (pads + 1) \<ge> 4 then Inr []
         else a2b_loop quad_pos leftchar (if quad_pos \<ge> 2 then pads + 1 else pads) rest)
      else
        (case table_a2b_base64 this_ch of
           None \<Rightarrow> a2b_loop quad_pos leftchar pads rest
         | Some v \<Rightarrow>
             if quad_pos = 0 then a2b_loop 1 v 0 rest
             else if quad_pos = 1 then
               emit ((leftchar * 4 + v div 16) mod 256) (a2b_loop 2 (v mod 16) 0 rest)
             else if quad_pos = 2 then
               emit ((leftchar * 16 + v div 4) mod 256) (a2b_loop 3 (v mod 4) 0 rest)
             else
               emit ((leftchar * 64 + v) mod 256) (a2b_loop 0 0 0 rest)))"

definition a2b_base64 :: "bytes \<Rightarrow> py_error + bytes" where
  "a2b_base64 s = a2b_loop 0 0 0 s"

text \<open>
  Given a \<open>str\<close>, \<open>b64decode\<close> first turns it into ASCII bytes and raises a plain
  \<open>ValueError\<close> (``string argument should contain only ASCII characters'') when a
  character is not ASCII.
\<close>

definition b64decode :: "pystr \<Rightarrow> py_error + bytes" where
  "b64decode s = (if list_all (\<lambda>c. c < 128) s then a2b_base64 s else Inl ValueError)"

subsection \<open>The identity codec of the bot\<close>

text \<open>
  Encoding, as in \<open>save_zoom_name_to_file\<close>:
  \<open>base64.b64encode(zoom_name.encode()).decode()\<close>. Decoding, as in
  \<open>queue_worker\<close> and \<open>on_message\<close>: \<open>base64.b64decode(encoded_name).decode()\<close>.
\<close>

definition encode_name :: "pystr \<Rightarrow> py_error + pystr" where
  "encode_name zoom_name =
     (case str_encode zoom_name of
        Inl e \<Rightarrow> Inl e
      | Inr bs \<Rightarrow> bytes_decode (b64encode bs))"

definition decode_name :: "pystr \<Rightarrow> py_error + pystr" where
  "decode_name encoded_name =
     (case b64decode encoded_name of
        Inl e \<Rightarrow> Inl e
      | Inr bs \<Rightarrow> bytes_decode bs)"

text \<open>The characters the decoder reads: the alphabet and the padding character.\<close>

definition in_alphabet :: "nat \<Rightarrow> bool" where
  "in_alphabet c = (c = BASE64_PAD \<or> table_a2b_base64 c \<noteq> None)"

text \<open>
  Valid text: every code point is a Unicode scalar value, that is, below \<open>0x110000\<close>
  and not a surrogate. These are the strings that have a UTF-8 encoding.
\<close>

definition scalar_value :: "nat \<Rightarrow> bool" where
  "scalar_value c = (c < 0x110000 \<and> \<not> (0xD800 \<le> c \<and> c \<le> 0xDFFF))"

definition valid_text :: "pystr \<Rightarrow> bool" where
  "valid_text s = list_all scalar_value s"

section \<open>Text predicates of Python used by the handlers\<close>

text \<open>
  \<open>str.strip()\<close> removes the leading and trailing characters for which
  \<open>str.isspace()\<close> holds; \<open>str.isdigit()\<close> holds for a non-empty string whose every
  character has the Unicode property \<open>Digit\<close> or \<open>Decimal\<close>. Both properties come
  from the Unicode character database (version 14.0, as in CPython 3.11), given here as
  the inclusive ranges of code points that have them.
\<close>

definition in_ranges :: "(nat \<times> nat) list \<Rightarrow> nat \<Rightarrow> bool" where
  "in_ranges rs c = list_ex (\<lambda>r. fst r \<le> c \<and> c \<le> snd r) rs"

definition space_ranges :: "(nat \<times> nat) list" where
  "space_ranges =
     [(9, 13), (28, 32), (133, 133), (160, 160), (5760, 5760), (8192, 8202),
      (8232, 8233), (8239, 8239), (8287, 8287), (12288, 12288)]"

definition digit_ranges :: "(nat \<times> nat) list" where
  "digit_ranges =
     [(48, 57), (178, 179), (185, 185), (1632, 1641), (1776, 1785), (1984, 1993),
      (2406, 2415), (2534, 2543), (2662, 2671), (2790, 2799), (2918, 2927), (3046,
      3055), (3174, 3183), (3302, 3311), (3430, 3439), (3558, 3567), (3664, 3673),
      (3792, 3801), (3872, 3881), (4160, 4169), (4240, 4249), (4969, 4977), (6112,
      6121), (6160, 6169), (6470, 6479), (6608, 6618), (6784, 6793), (6800, 6809),
      (6992, 7001), (7088, 7097), (7232, 7241), (7248, 7257), (8304, 8304), (8308,
      8313), (8320, 8329), (9312, 9320), (9332, 9340), (9352, 9360), (9450, 9450),
      (9461, 9469), (9471, 9471), (10102, 10110), (10112, 10120), (10122, 10130),
      (42528, 42537), (43216, 43225), (43264, 43273), (43472, 43481), (43504, 43513),
      (43600, 43609), (44016, 44025), (65296, 65305), (66720, 66729), (68160, 68163),
      (68912, 68921), (69216, 69224), (69714, 69722), (69734, 69743), (69872, 69881),
      (69942, 69951), (70096, 70105), (70384, 70393), (70736, 70745), (70864, 70873),
      (71248, 71257), (71360, 71369), (71472, 71481), (71904, 71913), (72016, 72025),
      (72784, 72793), (73040, 73049), (73120, 73129), (92768, 92777), (92864, 92873),
      (93008, 93017), (120782, 120831), (123200, 123209), (123632, 123641), (125264,
      125273), (127232, 127242), (130032, 130041)]"

definition isspace_char :: "nat \<Rightarrow> bool" where
  "isspace_char c = in_ranges space_ranges c"

definition isdigit_char :: "nat \<Rightarrow> bool" where
  "isdigit_char c = in_ranges digit_ranges c"

definition py_strip :: "pystr \<Rightarrow> pystr" where
  "py_strip s = rev (dropWhile isspace_char (rev (dropWhile isspace_char s)))"

definition py_isdigit :: "pystr \<Rightarrow> bool" where
  "py_isdigit s = (s \<noteq> [] \<and> list_all isdigit_char s)"

definition ascii_digit :: "nat \<Rightarrow> bool" where
  "ascii_digit c = (48 \<le> c \<and> c \<le> 57)"

text \<open>
  \<open>int(s)\<close>, for a string \<open>s\<close> that has passed \<open>isdigit()\<close> (the only use the
  program makes of it; such a string has no sign, underscore or whitespace). A character
  with the Unicode property \<open>Decimal\<close> stands for its digit value: these characters
  come in ranges in which the values run from 0 to 9 in order. A digit character without
  that property (a superscript two, a circled digit) makes \<open>int\<close> raise
  \<open>ValueError\<close>, and so does a string of more than 4300 digits, the interpreter's
  limit for this conversion. The result is an unbounded integer.
\<close>

definition decimal_ranges :: "(nat \<times> nat) list" where
  "decimal_ranges =
     [(48, 57), (1632, 1641), (1776, 1785), (1984, 1993), (2406, 2415), (2534, 2543),
      (2662, 2671), (2790, 2799), (2918, 2927), (3046, 3055), (3174, 3183), (3302,
      3311), (3430, 3439), (3558, 3567), (3664, 3673), (3792, 3801), (3872, 3881),
      (4160, 4169), (4240, 4249), (6112, 6121), (6160, 6169), (6470, 6479), (6608,
      6617), (6784, 6793), (6800, 6809), (6992, 7001), (7088, 7097), (7232, 7241),
      (7248, 7257), (42528, 42537), (43216, 43225), (43264, 43273), (43472, 43481),
      (43504, 43513), (43600, 43609), (44016, 44025), (65296, 65305), (66720, 66729),
      (68912, 68921), (69734, 69743), (69872, 69881), (69942, 69951), (70096, 70105),
      (70384, 70393), (70736, 70745), (70864, 70873), (71248, 71257), (71360, 71369),
      (71472, 71481), (71904, 71913), (72016, 72025), (72784, 72793), (73040, 73049),
      (73120, 73129), (92768, 92777), (92864, 92873), (93008, 93017), (120782, 120831),
      (123200, 123209), (123632, 123641), (125264, 125273), (130032, 130041)]"

definition decimal_value :: "nat \<Rightarrow> nat option" where
  "decimal_value c =
     map_option (\<lambda>r. (c - fst r) mod 10) (find (\<lambda>r. fst r \<le> c \<and> c \<le> snd r) decimal_ranges)"

fun digits_value :: "nat \<Rightarrow> pystr \<Rightarrow> nat option" where
  "digits_value n [] = Some n"
| "digits_value n (c # cs) =
     (case decimal_value c of
        None \<Rightarrow> None
      | Some d \<Rightarrow> digits_value (10 * n + d) cs)"

definition py_int :: "pystr \<Rightarrow> py_error + nat" where
  "py_int s =
     (if s = [] \<or> 4300 < length s then Inl ValueError
      else case digits_value 0 s of
             None \<Rightarrow> Inl ValueError
           | Some n \<Rightarrow> Inr n)"

text \<open>\<open>str(user_id)\<close>: the decimal digits of a user id, used as a dictionary key.\<close>

function str_of_nat :: "nat \<Rightarrow> string" where
  "str_of_nat n =
     (if n < 10 then [''0123456789'' ! n]
      else str_of_nat (n div 10) @ [''0123456789'' ! (n mod 10)])"
  by pat_completeness auto
termination
  by (relation "measure id") auto

section \<open>Storage: \<open>hostbot/storage.py\<close>\<close>

text \<open>
  The stored document is a dictionary keyed by a namespace (\<open>DATA_USER_PATH\<close>); the
  namespace's dictionary is keyed by \<open>str(user_id)\<close> for the users' records and by
  \<open>host_message\<close> and \<open>room_number\<close> (keys that no user id can spell). The
  functions use the loaded value as a dictionary of dictionaries without checking, so
  the model also has the values that are not: a loaded value that is not a dictionary
  (\<open>NotDict\<close>: \<open>setdefault\<close> and \<open>get\<close> raise \<open>AttributeError\<close>), and a value under
  the namespace key that is not one (\<open>NotNamespace\<close>: \<open>get\<close> raises
  \<open>AttributeError\<close>, item assignment raises \<open>TypeError\<close>). Serialisation is not
  modelled: a file that holds a document holds the value itself, so \<open>json.dump\<close>
  followed by \<open>json.load\<close> gives the same value back.
\<close>

record user_record =
  zoomName :: pystr
  base64 :: pystr
  lastUsed :: nat
  telegramId :: pystr

record namespace =
  users :: "string \<rightharpoonup> user_record"
  host_message :: "nat option"
  room_number_entry :: "pystr option"

datatype ns_value =
    Namespace namespace
  | NotNamespace

type_synonym store = "string \<rightharpoonup> ns_value"

datatype document =
    Dict store
  | NotDict

definition DATA_USER_PATH :: string where
  "DATA_USER_PATH = ''hostbot''"

definition empty_namespace :: namespace where
  "empty_namespace = \<lparr>users = Map.empty, host_message = None, room_number_entry = None\<rparr>"

text \<open>
  What \<open>open(HOSTBOT_DATA_FILE, "r", encoding="utf-8")\<close> and \<open>json.load\<close> meet:
  \<^item> no file: \<open>FileNotFoundError\<close>;
  \<^item> a file whose text is read and is not JSON: \<open>json.JSONDecodeError\<close>;
  \<^item> a file that cannot be read as JSON text at all: its bytes are not UTF-8
    (\<open>UnicodeDecodeError\<close>, raised by the read), or its text nests deeper than the
    parser's recursion limit (\<open>RecursionError\<close>);
  \<^item> a file that holds a JSON value.
  Writing the file is taken to succeed, and so is opening a file that exists: a failure
  of the operating system (permissions, a full disk) is not modelled, for reading as for
  writing.
\<close>

datatype read_failure = NotUTF8 | TooDeep

datatype file_state =
    Missing
  | Malformed
  | Unreadable read_failure
  | Document document

definition raised_by :: "read_failure \<Rightarrow> py_error" where
  "raised_by f = (case f of NotUTF8 \<Rightarrow> UnicodeDecodeError | TooDeep \<Rightarrow> RecursionError)"

datatype log_line =
    FirebaseReadFailed
  | FirebaseWriteFailed
  | InvalidJSONDataFile

text \<open>
  The world that the storage functions act on. \<open>fb_ref\<close> says that
  \<open>_get_realtime_db()\<close> yields a database reference (Firebase is installed, configured
  and initialised; the reference is cached). \<open>fb_init_fails\<close> says that, with no
  reference cached, Firebase is configured and its initialisation raises, at every call.
  A call to the remote database succeeds or raises: \<open>fb_up\<close> gives the outcome of each
  remote call of the process, by its number, and \<open>fb_calls\<close> counts the calls made so
  far. \<open>fb_data\<close> is the value under the child \<open>data\<close> (\<open>None\<close> when there is none
  or it is empty), \<open>fb_docs\<close> the values under the children named by user ids.
  \<open>now\<close> is \<open>int(time.time())\<close>.

  A function that raises gives \<open>Inl\<close> of the exception and of the world as it is then.
\<close>

record world =
  fb_ref :: bool
  fb_init_fails :: bool
  fb_up :: "nat \<Rightarrow> bool"
  fb_calls :: nat
  fb_data :: "document option"
  fb_docs :: "string \<rightharpoonup> user_record"
  data_file :: file_state
  logged :: "log_line list"
  now :: nat

definition get_realtime_db :: "world \<Rightarrow> py_error + bool" where
  "get_realtime_db w =
     (if fb_ref w then Inr True
      else if fb_init_fails w then Inl FirebaseInitError
      else Inr False)"

definition fb_call :: "world \<Rightarrow> bool \<times> world" where
  "fb_call w = (fb_up w (fb_calls w), w\<lparr>fb_calls := fb_calls w + 1\<rparr>)"

definition logging_error :: "log_line \<Rightarrow> world \<Rightarrow> world" where
  "logging_error l w = w\<lparr>logged := logged w @ [l]\<rparr>"

text \<open>
  The second \<open>try\<close> of \<open>load_data\<close>: only \<open>FileNotFoundError\<close> and
  \<open>json.JSONDecodeError\<close> are caught.
\<close>

definition read_data_file :: "world \<Rightarrow> py_error \<times> world + document \<times> world" where
  "read_data_file w =
     (case data_file w of
        Document d \<Rightarrow> Inr (d, w)
      | Missing \<Rightarrow> Inr (Dict Map.empty, w)
      | Malformed \<Rightarrow> Inr (Dict Map.empty, logging_error InvalidJSONDataFile w)
      | Unreadable f \<Rightarrow> Inl (raised_by f, w))"

definition load_data :: "world \<Rightarrow> py_error \<times> world + document \<times> world" where
  "load_data w =
     (case get_realtime_db w of
        Inl e \<Rightarrow> Inl (e, w)
      | Inr fb \<Rightarrow>
          if fb then
            (case fb_call w of
               (True, w1) \<Rightarrow>
                 Inr ((case fb_data w1 of None \<Rightarrow> Dict Map.empty | Some d \<Rightarrow> d), w1)
             | (False, w1) \<Rightarrow> read_data_file (logging_error FirebaseReadFailed w1))
          else read_data_file w)"

definition write_data_file :: "store \<Rightarrow> world \<Rightarrow> world" where
  "write_data_file d w = w\<lparr>data_file := Document (Dict d)\<rparr>"

definition save_data :: "store \<Rightarrow> world \<Rightarrow> py_error \<times> world + world" where
  "save_data d w =
     (case get_realtime_db w of
        Inl e \<Rightarrow> Inl (e, w)
      | Inr fb \<Rightarrow>
          if fb then
            (case fb_call w of
               (True, w1) \<Rightarrow> Inr (w1\<lparr>fb_data := Some (Dict d)\<rparr>)
             | (False, w1) \<Rightarrow> Inr (write_data_file d (logging_error FirebaseWriteFailed w1)))
          else Inr (write_data_file d w))"

text \<open>
  \<open>base = store.setdefault(DATA_USER_PATH, {})\<close> followed by an item assignment on
  \<open>base\<close>: the namespace's dictionary, created when absent, changed by \<open>f\<close>.
\<close>

definition update_namespace :: "(namespace \<Rightarrow> namespace) \<Rightarrow> document \<Rightarrow> py_error + store" where
  "update_namespace f doc =
     (case doc of
        NotDict \<Rightarrow> Inl AttributeError
      | Dict st \<Rightarrow>
          (case st DATA_USER_PATH of
             None \<Rightarrow> Inr (st(DATA_USER_PATH \<mapsto> Namespace (f empty_namespace)))
           | Some (Namespace b) \<Rightarrow> Inr (st(DATA_USER_PATH \<mapsto> Namespace (f b)))
           | Some NotNamespace \<Rightarrow> Inl TypeError))"

text \<open>
  The sequence \<open>load_data()\<close>, \<open>setdefault\<close>, item assignment, \<open>save_data(store)\<close>
  shared by the functions that save; none of it stands in a \<open>try\<close>.
\<close>

definition load_modify_save :: "(namespace \<Rightarrow> namespace) \<Rightarrow> world \<Rightarrow> py_error \<times> world + world" where
  "load_modify_save f w =
     (case load_data w of
        Inl x \<Rightarrow> Inl x
      | Inr (doc, w1) \<Rightarrow>
          (case update_namespace f doc of
             Inl e \<Rightarrow> Inl (e, w1)
           | Inr st \<Rightarrow> save_data st w1))"

definition save_zoom_name_to_file ::
  "nat \<Rightarrow> pystr \<Rightarrow> world \<Rightarrow> py_error \<times> world + pystr \<times> world" where
  "save_zoom_name_to_file user_id zoom_name w =
     (case encode_name zoom_name of
        Inl e \<Rightarrow> Inl (e, w)
      | Inr encoded \<Rightarrow>
          let data = \<lparr>zoomName = zoom_name, base64 = encoded, lastUsed = now w,
                      telegramId = []\<rparr>;
              local = (\<lambda>w0.
                case load_modify_save
                       (\<lambda>b. b\<lparr>users := (users b)(str_of_nat user_id \<mapsto> data)\<rparr>) w0 of
                  Inl x \<Rightarrow> Inl x
                | Inr w1 \<Rightarrow> Inr (encoded, w1))
          in case get_realtime_db w of
               Inl e \<Rightarrow> Inl (e, w)
             | Inr fb \<Rightarrow>
                 if fb then
                   (case fb_call w of
                      (True, w1) \<Rightarrow>
                        Inr (encoded,
                             w1\<lparr>fb_docs := (fb_docs w1)(str_of_nat user_id \<mapsto> data)\<rparr>)
                    | (False, w1) \<Rightarrow> local (logging_error FirebaseWriteFailed w1))
                 else local w)"

definition save_room_number :: "pystr \<Rightarrow> world \<Rightarrow> py_error \<times> world + world" where
  "save_room_number number w =
     load_modify_save (\<lambda>b. b\<lparr>room_number_entry := Some number\<rparr>) w"

definition load_room_number :: "world \<Rightarrow> py_error \<times> world + pystr option \<times> world" where
  "load_room_number w =
     (case load_data w of
        Inl x \<Rightarrow> Inl x
      | Inr (NotDict, w1) \<Rightarrow> Inl (AttributeError, w1)
      | Inr (Dict st, w1) \<Rightarrow>
          (case st DATA_USER_PATH of
             None \<Rightarrow> Inr (None, w1)
           | Some NotNamespace \<Rightarrow> Inl (AttributeError, w1)
           | Some (Namespace b) \<Rightarrow>
               (case room_number_entry b of
                  None \<Rightarrow> Inr (None, w1)
                | Some v \<Rightarrow> Inr (if v \<noteq> [] then Some v else None, w1))))"


section \<open>Trigger client: \<open>hostbot/triggercmd.py\<close>\<close>

text \<open>
  \<open>_call_trigger\<close> builds the JSON body and the headers of one POST and hands it to
  \<open>urllib.request.urlopen\<close>. The network is the function \<open>urlopen\<close> from the request
  to what the call meets: a response (\<open>urlopen\<close> returns only for a successful status,
  after following redirects), with a flag saying whether \<open>response.read()\<close> runs to the
  end; an \<open>HTTPError\<close> with its status code and, when \<open>exc.read()\<close> works, its body;
  or any other exception (\<open>URLError\<close>, a timeout, a reset connection).
\<close>

record http_request =
  authorization :: pystr
  computer :: string
  trigger :: string
  params :: "pystr option"

datatype http_outcome =
    Response bool
  | HTTPError nat "pystr option"
  | OtherError

datatype trigger_exc =
    TokenNotSet
  | HTTPErrorRaised nat "pystr option"
  | ExceptionRaised

datatype trigger_log =
    LogHTTP string nat "pystr option"
  | LogError string trigger_exc

definition build_request :: "pystr \<Rightarrow> string \<Rightarrow> pystr option \<Rightarrow> http_request" where
  "build_request token trig ps =
     \<lparr>authorization = map of_char ''Bearer '' @ token, computer = ''bot'',
      trigger = trig, params = ps\<rparr>"

text \<open>The body of the \<open>try\<close> statement: it returns, or raises one of the exceptions.\<close>

definition try_call_trigger ::
  "pystr \<Rightarrow> (http_request \<Rightarrow> http_outcome) \<Rightarrow> string \<Rightarrow> pystr option \<Rightarrow> trigger_exc + bool" where
  "try_call_trigger token urlopen trig ps =
     (if token = [] then Inl TokenNotSet
      else
        (case urlopen (build_request token trig ps) of
           Response read_ok \<Rightarrow> if read_ok then Inr True else Inl ExceptionRaised
         | HTTPError code body \<Rightarrow> Inl (HTTPErrorRaised code body)
         | OtherError \<Rightarrow> Inl ExceptionRaised))"

text \<open>
  \<open>_call_trigger\<close>: the \<open>try\<close> body with its two handlers, \<open>except HTTPError\<close> and
  \<open>except Exception\<close>. The result is the returned boolean and the lines logged.
\<close>

definition call_trigger ::
  "pystr \<Rightarrow> (http_request \<Rightarrow> http_outcome) \<Rightarrow> string \<Rightarrow> pystr option \<Rightarrow> bool \<times> trigger_log list" where
  "call_trigger token urlopen trig ps =
     (case try_call_trigger token urlopen trig ps of
        Inr r \<Rightarrow> (r, [])
      | Inl (HTTPErrorRaised code body) \<Rightarrow> (False, [LogHTTP trig code body])
      | Inl exc \<Rightarrow> (False, [LogError trig exc]))"

definition send_trigger_cmd ::
  "pystr \<Rightarrow> (http_request \<Rightarrow> http_outcome) \<Rightarrow> pystr \<Rightarrow> bool \<times> trigger_log list" where
  "send_trigger_cmd token urlopen encoded_name =
     call_trigger token urlopen ''cohost'' (Some encoded_name)"

section \<open>The bot: \<open>hostbot.py\<close>\<close>

subsection \<open>State\<close>

datatype request = Request (encoded_name: pystr)

datatype log_embed =
    CohostAssigned pystr
  | TriggerFailed pystr
  | QueuedEncodedName pystr
  | InvalidBase64
  | NotValidUTF8

text \<open>
  What the worker does is recorded as a trace of events: an item taken from the queue,
  the trigger call with its result, an embed sent to the log channel, an error logged
  by the worker's handler, a sleep of so many seconds.
\<close>

datatype event =
    Dequeued request
  | TriggerCalled pystr bool
  | LogEmbed log_embed
  | WorkerError py_error
  | Slept nat

text \<open>
  The module's globals: the queue (an unbounded \<open>asyncio.Queue\<close>, a list with the head
  first), \<open>queue_delay\<close>, \<open>room_number\<close>; and the trace.
\<close>

record bot =
  request_queue :: "request list"
  queue_delay :: nat
  room_number :: pystr
  trace :: "event list"

definition initial_bot :: "pystr \<Rightarrow> bot" where
  "initial_bot stored_room =
     \<lparr>request_queue = [], queue_delay = 10, room_number = stored_room, trace = []\<rparr>"

definition put :: "request \<Rightarrow> bot \<Rightarrow> bot" where
  "put r b = b\<lparr>request_queue := request_queue b @ [r]\<rparr>"


text \<open>
  \<open>send_log_embed\<close> looks the log channel up and sends when it is there; the send can
  raise. The environment of one worker iteration: the trigger token, the network, and
  the state of the log channel.
\<close>

datatype channel_state = NoChannel | ChannelSends | ChannelFails

record env =
  TRIGGERCMD_TOKEN :: pystr
  urlopen :: "http_request \<Rightarrow> http_outcome"
  log_channel :: channel_state

definition send_log_embed :: "channel_state \<Rightarrow> log_embed \<Rightarrow> py_error + event list" where
  "send_log_embed ch m =
     (case ch of
        NoChannel \<Rightarrow> Inr []
      | ChannelSends \<Rightarrow> Inr [LogEmbed m]
      | ChannelFails \<Rightarrow> Inl HTTPException)"

subsection \<open>The queue worker\<close>

text \<open>
  \<open>asyncio.sleep(delay)\<close> with a non-negative \<open>int\<close>. For 0 it yields once and
  returns. Otherwise the event loop's \<open>call_later\<close> adds the delay to its clock, which
  is a \<open>float\<close>, and the conversion of the \<open>int\<close> raises \<open>OverflowError\<close> when
  it does not round to a finite \<open>float\<close>: that is from \<open>2 ^ 1024 - 2 ^ 970\<close> on,
  halfway between the largest \<open>float\<close>, \<open>2 ^ 1024 - 2 ^ 971\<close>, and \<open>2 ^ 1024\<close>.
  Below that the call returns once the delay has passed.
\<close>

definition asyncio_sleep :: "nat \<Rightarrow> py_error + unit" where
  "asyncio_sleep delay = (if delay < 2 ^ 1024 - 2 ^ 970 then Inr () else Inl OverflowError)"

text \<open>
  The \<open>try\<close> block of \<open>queue_worker\<close>: the trigger call comes first, then the decoding
  of the name for the report, then the report. It gives the events that happened and
  either completes or raises.
\<close>

definition process_request :: "env \<Rightarrow> request \<Rightarrow> event list \<times> (py_error + unit)" where
  "process_request e r =
     (let success = fst (send_trigger_cmd (TRIGGERCMD_TOKEN e) (urlopen e) (encoded_name r));
          called = [TriggerCalled (encoded_name r) success]
      in case decode_name (encoded_name r) of
           Inl err \<Rightarrow> (called, Inl err)
         | Inr name \<Rightarrow>
             (case send_log_embed (log_channel e)
                     (if success then CohostAssigned name else TriggerFailed name) of
                Inl err \<Rightarrow> (called, Inl err)
              | Inr sent \<Rightarrow> (called @ sent, Inr ())))"

text \<open>
  One turn of the \<open>while True\<close> loop for the item \<open>r\<close> that \<open>request_queue.get()\<close>
  returned. First the \<open>try\<close> block with its handler \<open>except Exception\<close> (every
  exception of the block derives from \<open>Exception\<close>): \<open>turn_events\<close>. Then, outside
  the \<open>try\<close>, \<open>asyncio.sleep(queue_delay)\<close> with the value that the global has at that
  moment. An exception of the sleep leaves \<open>queue_worker\<close>: the result of the turn is
  the new state and that exception, if any.
\<close>

definition turn_events :: "env \<Rightarrow> request \<Rightarrow> event list" where
  "turn_events e r =
     (let (happened, result) = process_request e r;
          handled = (case result of Inl err \<Rightarrow> [WorkerError err] | Inr _ \<Rightarrow> [])
      in [Dequeued r] @ happened @ handled)"

definition worker_iteration :: "env \<Rightarrow> request \<Rightarrow> bot \<Rightarrow> bot \<times> py_error option" where
  "worker_iteration e r b =
     (let b1 = b\<lparr>trace := trace b @ turn_events e r\<rparr>
      in case asyncio_sleep (queue_delay b1) of
           Inl err \<Rightarrow> (b1, Some err)
         | Inr _ \<Rightarrow> (b1\<lparr>trace := trace b1 @ [Slept (queue_delay b1)]\<rparr>, None))"

text \<open>
  The loop returns only by an exception, and then the worker's task is over: nothing
  restarts it (\<open>start_bot\<close> creates the task once). The loop is observed for as many
  turns as there are environments in the list, one per turn; on an empty queue
  \<open>get()\<close> waits, and with nothing being enqueued the observation ends there. The
  result is the state reached and the exception that ended the worker, if one did.
\<close>

fun queue_worker :: "env list \<Rightarrow> bot \<Rightarrow> bot \<times> py_error option" where
  "queue_worker [] b = (b, None)"
| "queue_worker (e # es) b =
     (case request_queue b of
        [] \<Rightarrow> (b, None)
      | r # q \<Rightarrow>
          (case worker_iteration e r (b\<lparr>request_queue := q\<rparr>) of
             (b', Some err) \<Rightarrow> (b', Some err)
           | (b', None) \<Rightarrow> queue_worker es b'))"


text \<open>
  The cooldown on a trace: an item is taken from the queue only at the start of the
  trace or right after a sleep of \<open>d\<close> seconds.
\<close>

fun is_dequeue :: "event \<Rightarrow> bool" where
  "is_dequeue (Dequeued r) = True"
| "is_dequeue _ = False"

fun cooldown_kept :: "nat \<Rightarrow> event list \<Rightarrow> bool" where
  "cooldown_kept d [] = True"
| "cooldown_kept d [ev] = True"
| "cooldown_kept d (ev # next_ev # evs) =
     ((is_dequeue next_ev \<longrightarrow> ev = Slept d) \<and> cooldown_kept d (next_ev # evs))"

text \<open>
  The events of successive turns of the loop that each end in a sleep of \<open>d\<close> seconds,
  for the environments \<open>es\<close> and the queued items \<open>q\<close>, as long as both last.
\<close>

fun turns :: "env list \<Rightarrow> request list \<Rightarrow> nat \<Rightarrow> event list" where
  "turns (e # es) (r # q) d = turn_events e r @ Slept d # turns es q d"
| "turns _ _ d = []"

subsection \<open>Handlers\<close>

datatype response =
    Queued nat
  | PleaseUpdateZoomName
  | ErrorAssigningCohost py_error
  | RoomNumberUpdated pystr
  | InvalidRoomNumber
  | QueueDelayUpdated
  | InvalidNumber




text \<open>
  \<open>on_message\<close>: a message in the request channel is taken to be an encoded name. The
  result is the new state and the exception that left the handler, if any.
\<close>

record message =
  author_is_bot :: bool
  in_request_channel :: bool
  content :: pystr

definition on_message :: "channel_state \<Rightarrow> message \<Rightarrow> bot \<Rightarrow> bot \<times> py_error option" where
  "on_message ch m b =
     (if author_is_bot m then (b, None)
      else if in_request_channel m then
        (let encoded = py_strip (content m);
             report = (\<lambda>b0 embed.
                         case send_log_embed ch embed of
                           Inl err \<Rightarrow> (b0, Some err)
                         | Inr sent \<Rightarrow> (b0\<lparr>trace := trace b0 @ sent\<rparr>, None))
         in case decode_name encoded of
              Inr name \<Rightarrow> report (put (Request encoded) b) (QueuedEncodedName encoded)
            | Inl BinasciiError \<Rightarrow> report b InvalidBase64
            | Inl UnicodeDecodeError \<Rightarrow> report b NotValidUTF8
            | Inl err \<Rightarrow> (b, Some err))
      else (b, None))"

text \<open>
  \<open>UpdateRoomNumberModal.on_submit\<close>: in the accepting branch the global
  \<open>room_number\<close> is set, then the number is saved, then the reply is sent; an exception
  of the save leaves the handler. The other branch only replies.
\<close>

datatype outcome =
    Replied response
  | Raised py_error

definition update_room_number :: "pystr \<Rightarrow> world \<times> bot \<Rightarrow> (world \<times> bot) \<times> outcome" where
  "update_room_number number s =
     (let v = py_strip number
      in if py_isdigit v \<and> length v = 11 then
           (case save_room_number v (fst s) of
              Inl (e, w) \<Rightarrow> ((w, (snd s)\<lparr>room_number := v\<rparr>), Raised e)
            | Inr w \<Rightarrow> ((w, (snd s)\<lparr>room_number := v\<rparr>), Replied (RoomNumberUpdated v)))
         else (s, Replied InvalidRoomNumber))"

text \<open>
  \<open>SetQueueDelayModal.on_submit\<close>: the text of the field is taken as it is; when
  \<open>isdigit()\<close> holds for it the global \<open>queue_delay\<close> becomes \<open>int\<close> of it, whatever
  its size; an exception of \<open>int\<close> leaves the handler.
\<close>

definition set_queue_delay :: "pystr \<Rightarrow> bot \<Rightarrow> bot \<times> outcome" where
  "set_queue_delay seconds b =
     (if py_isdigit seconds then
        (case py_int seconds of
           Inl e \<Rightarrow> (b, Raised e)
         | Inr n \<Rightarrow> (b\<lparr>queue_delay := n\<rparr>, Replied QueueDelayUpdated))
      else (b, Replied InvalidNumber))"

text \<open>
  The world right after \<open>hostbot/config.py\<close> is imported without Firebase: the data
  file exists and holds the empty document.
\<close>

definition fresh_world :: world where
  "fresh_world =
     \<lparr>fb_ref = False, fb_init_fails = False, fb_up = (\<lambda>_. False), fb_calls = 0,
      fb_data = None, fb_docs = Map.empty, data_file = Document (Dict Map.empty),
      logged = [], now = 0\<rparr>"

text \<open>
  A data file that the local path of the saving functions can work on: it is missing or
  not JSON (both read as the empty dictionary), or it holds a dictionary whose namespace
  entry, if there is one, is a dictionary.
\<close>

definition well_shaped :: "file_state \<Rightarrow> bool" where
  "well_shaped f =
     (case f of
        Missing \<Rightarrow> True
      | Malformed \<Rightarrow> True
      | Unreadable _ \<Rightarrow> False
      | Document NotDict \<Rightarrow> False
      | Document (Dict st) \<Rightarrow> st DATA_USER_PATH \<noteq> Some NotNamespace)"

section \<open>Properties of the codec\<close>

declare str_of_nat.simps [simp del]

lemma emit_simps [simp]: "emit x (Inl e) = Inl e" "emit x (Inr xs) = Inr (x # xs)"
  by (simp_all add: emit_def)

lemma split64: "c = c div 4096 * 4096 + c div 64 mod 64 * 64 + c mod 64" for c :: nat
proof -
  define d q r s where "d = c div 64" and "q = d div 64" and "r = d mod 64" and "s = c mod 64"
  have "c div 4096 = q" by (simp add: div_mult2_eq d_def q_def)
  moreover have "c = d * 64 + s" by (simp add: d_def s_def)
  moreover have "d = q * 64 + r" by (simp add: q_def r_def)
  ultimately have "c = c div 4096 * 4096 + r * 64 + s" by linarith
  then show ?thesis by (simp only: r_def d_def s_def)
qed

lemma split64': "c = c div 262144 * 262144 + c div 4096 mod 64 * 4096 + c div 64 mod 64 * 64 + c mod 64" for c :: nat
proof -
  define d q t r s where "d = c div 4096" and "q = d div 64" and "t = d mod 64"
    and "r = c div 64 mod 64" and "s = c mod 64"
  have "c div 262144 = q" by (simp add: div_mult2_eq d_def q_def)
  moreover have "c = d * 4096 + r * 64 + s" using split64 [of c] by (simp only: d_def r_def s_def)
  moreover have "d = q * 64 + t" by (simp add: q_def t_def)
  ultimately have "c = c div 262144 * 262144 + t * 4096 + r * 64 + s" by linarith
  then show ?thesis by (simp only: r_def d_def s_def t_def)
qed

lemma dec2:
  assumes "2 \<le> q" "q < 32" "s < 64"
  shows "bytes_decode ((0xC0 + q) # (0x80 + s) # rest) = emit (q * 64 + s) (bytes_decode rest)"
  using assms by (simp add: cont_def)

lemma dec3:
  assumes "q < 16" "r < 64" "s < 64" "q = 0 \<longrightarrow> 32 \<le> r" "q = 13 \<longrightarrow> r < 32"
  shows "bytes_decode ((0xE0 + q) # (0x80 + r) # (0x80 + s) # rest)
         = emit (q * 4096 + r * 64 + s) (bytes_decode rest)"
  using assms by (auto simp add: cont_def second_ok_def)

lemma dec4:
  assumes "q < 5" "t < 64" "r < 64" "s < 64" "q = 0 \<longrightarrow> 16 \<le> t" "q = 4 \<longrightarrow> t < 16"
  shows "bytes_decode ((0xF0 + q) # (0x80 + t) # (0x80 + r) # (0x80 + s) # rest)
         = emit (q * 262144 + t * 4096 + r * 64 + s) (bytes_decode rest)"
  using assms by (auto simp add: cont_def second_ok_def)

lemma decode_utf8_char:
  assumes "scalar_value c"
  shows "\<exists>bs. utf8_char c = Inr bs \<and> list_all (\<lambda>b. b < 256) bs \<and>
     (\<forall>rest. bytes_decode (bs @ rest) = emit c (bytes_decode rest))"
proof -
  define s where "s = c mod 64"
  have s: "s < 64" by (simp add: s_def)
  consider "c < 0x80" | "0x80 \<le> c" "c < 0x800" | "0x800 \<le> c" "c < 0x10000" | "0x10000 \<le> c"
    by linarith
  then show ?thesis
  proof cases
    case 1
    then show ?thesis by (simp add: utf8_char_def)
  next
    case 2
    define q where "q = c div 64"
    have c: "c = q * 64 + s" by (simp add: q_def s_def)
    have q: "2 \<le> q" "q < 32" using 2 c s by linarith+
    have "utf8_char c = Inr [0xC0 + q, 0x80 + s]"
      using 2 by (simp add: utf8_char_def q_def s_def)
    moreover have "\<forall>rest. bytes_decode ([0xC0 + q, 0x80 + s] @ rest) = emit c (bytes_decode rest)"
      using dec2 [OF q s] c by simp
    moreover have "list_all (\<lambda>b. b < 256) [0xC0 + q, 0x80 + s]" using q s by simp
    ultimately show ?thesis by blast
  next
    case 3
    define q r where "q = c div 4096" and "r = c div 64 mod 64"
    have c: "c = q * 4096 + r * 64 + s" using split64 [of c] by (simp only: q_def r_def s_def)
    have r: "r < 64" by (simp add: r_def)
    have q: "q < 16" using 3 c by linarith
    have lo: "q = 0 \<longrightarrow> 32 \<le> r" using 3 c s by auto
    have hi: "q = 13 \<longrightarrow> r < 32" using assms c s r by (auto simp: scalar_value_def)
    have "utf8_char c = Inr [0xE0 + q, 0x80 + r, 0x80 + s]"
      using 3 assms by (simp add: utf8_char_def scalar_value_def q_def r_def s_def)
    moreover have "\<forall>rest. bytes_decode ([0xE0 + q, 0x80 + r, 0x80 + s] @ rest) = emit c (bytes_decode rest)"
      using dec3 [OF q r s lo hi] c by simp
    moreover have "list_all (\<lambda>b. b < 256) [0xE0 + q, 0x80 + r, 0x80 + s]" using q r s by simp
    ultimately show ?thesis by blast
  next
    case 4
    define q t r where "q = c div 262144" and "t = c div 4096 mod 64" and "r = c div 64 mod 64"
    have c: "c = q * 262144 + t * 4096 + r * 64 + s"
      using split64' [of c] by (simp only: q_def r_def s_def t_def)
    have r: "r < 64" by (simp add: r_def)
    have t: "t < 64" by (simp add: t_def)
    have q: "q < 5" using assms c by (simp add: scalar_value_def)
    have lo: "q = 0 \<longrightarrow> 16 \<le> t" using 4 c s r by auto
    have hi: "q = 4 \<longrightarrow> t < 16" using assms c by (auto simp: scalar_value_def)
    have "utf8_char c = Inr [0xF0 + q, 0x80 + t, 0x80 + r, 0x80 + s]"
      using 4 by (simp add: utf8_char_def q_def r_def s_def t_def)
    moreover have "\<forall>rest. bytes_decode ([0xF0 + q, 0x80 + t, 0x80 + r, 0x80 + s] @ rest) = emit c (bytes_decode rest)"
      using dec4 [OF q t r s lo hi] c by simp
    moreover have "list_all (\<lambda>b. b < 256) [0xF0 + q, 0x80 + t, 0x80 + r, 0x80 + s]"
      using q r s t by simp
    ultimately show ?thesis by blast
  qed
qed

lemma str_roundtrip:
  "valid_text s \<Longrightarrow>
     \<exists>bs. str_encode s = Inr bs \<and> list_all (\<lambda>b. b < 256) bs \<and>
       (\<forall>rest. bytes_decode (bs @ rest) = (case bytes_decode rest of Inl e \<Rightarrow> Inl e | Inr r \<Rightarrow> Inr (s @ r)))"
proof (induction s)
  case Nil
  then show ?case by (simp split: sum.splits)
next
  case (Cons c cs)
  then have "scalar_value c" "valid_text cs" by (simp_all add: valid_text_def)
  from decode_utf8_char [OF this(1)] obtain b1 where
    b1: "utf8_char c = Inr b1" "list_all (\<lambda>b. b < 256) b1"
      "\<And>rest. bytes_decode (b1 @ rest) = emit c (bytes_decode rest)" by blast
  from Cons.IH [OF \<open>valid_text cs\<close>] obtain b2 where
    b2: "str_encode cs = Inr b2" "list_all (\<lambda>b. b < 256) b2"
      "\<And>rest. bytes_decode (b2 @ rest) = (case bytes_decode rest of Inl e \<Rightarrow> Inl e | Inr r \<Rightarrow> Inr (cs @ r))"
    by blast
  have "str_encode (c # cs) = Inr (b1 @ b2)" using b1 b2 by simp
  moreover have "list_all (\<lambda>b. b < 256) (b1 @ b2)" using b1 b2 by simp
  moreover have "\<forall>rest. bytes_decode ((b1 @ b2) @ rest) = (case bytes_decode rest of Inl e \<Rightarrow> Inl e | Inr r \<Rightarrow> Inr ((c # cs) @ r))"
    using b1(3) b2(3) by (simp split: sum.splits)
  ultimately show ?case by blast
qed

lemma table_roundtrip:
  assumes "n < 64"
  shows "table_a2b_base64 (table_b2a_base64 n) = Some n"
    and "table_b2a_base64 n \<noteq> BASE64_PAD" and "table_b2a_base64 n < 128"
  using assms by (auto simp add: table_a2b_base64_def table_b2a_base64_def BASE64_PAD_def)

declare a2b_loop.simps(2) [simp del]

lemma a2b_data [simp]:
  assumes "n < 64"
  shows "a2b_loop q l p (table_b2a_base64 n # rest) =
     (if q = 0 then a2b_loop 1 n 0 rest
      else if q = 1 then emit ((l * 4 + n div 16) mod 256) (a2b_loop 2 (n mod 16) 0 rest)
      else if q = 2 then emit ((l * 16 + n div 4) mod 256) (a2b_loop 3 (n mod 4) 0 rest)
      else emit ((l * 64 + n) mod 256) (a2b_loop 0 0 0 rest))"
  using table_roundtrip [OF assms] by (simp add: a2b_loop.simps(2))


lemma pad_step [simp]:
  "a2b_loop q l p (BASE64_PAD # rest) =
     (if q \<ge> 2 \<and> q + (p + 1) \<ge> 4 then Inr []
      else a2b_loop q l (if q \<ge> 2 then p + 1 else p) rest)"
  by (simp add: a2b_loop.simps(2))

lemma b64_roundtrip:
  "list_all (\<lambda>b. b < 256) bs \<Longrightarrow> a2b_loop 0 0 0 (b64encode bs) = Inr bs"
proof (induction bs rule: b64encode.induct)
  case 1
  then show ?case by simp
next
  case (2 a)
  then have a: "a < 256" by simp
  have s: "a div 4 < 64" "a mod 4 * 16 < 64" using a by auto
  have "(a div 4 * 4 + a mod 4 * 16 div 16) mod 256 = a" using a by simp
  then show ?case using s by simp
next
  case (3 a b)
  then have a: "a < 256" "b < 256" by simp_all
  have s: "a div 4 < 64" "a mod 4 * 16 + b div 16 < 64" "b mod 16 * 4 < 64" using a by auto
  have "b div 16 < 16" using a by simp
  then have 1: "(a mod 4 * 16 + b div 16) div 16 = a mod 4" "(a mod 4 * 16 + b div 16) mod 16 = b div 16"
    by simp_all
  have 2: "b mod 16 * 4 div 4 = b mod 16" by simp
  show ?case using s a by (simp add: 1 2)
next
  case (4 a b c r)
  then have a: "a < 256" "b < 256" "c < 256" and r: "list_all (\<lambda>b. b < 256) r" by simp_all
  have s: "a div 4 < 64" "a mod 4 * 16 + b div 16 < 64" "b mod 16 * 4 + c div 64 < 64" "c mod 64 < 64"
    using a by auto
  have "b div 16 < 16" "c div 64 < 4" using a by simp_all
  then have 1: "(a mod 4 * 16 + b div 16) div 16 = a mod 4" "(a mod 4 * 16 + b div 16) mod 16 = b div 16"
    "(b mod 16 * 4 + c div 64) div 4 = b mod 16" "(b mod 16 * 4 + c div 64) mod 4 = c div 64"
    by simp_all
  show ?case using s a "4.IH" [OF r] by (simp add: 1)
qed

lemma b64encode_ascii: "list_all (\<lambda>b. b < 256) bs \<Longrightarrow> list_all (\<lambda>c. c < 128) (b64encode bs)"
proof (induction bs rule: b64encode.induct)
  case 1
  then show ?case by simp
next
  case (2 a)
  then have a: "a < 256" by simp
  have s: "a div 4 < 64" "a mod 4 * 16 < 64" using a by auto
  show ?case using table_roundtrip(3) s by (simp add: BASE64_PAD_def)
next
  case (3 a b)
  then have a: "a < 256" "b < 256" by simp_all
  have s: "a div 4 < 64" "a mod 4 * 16 + b div 16 < 64" "b mod 16 * 4 < 64" using a by auto
  show ?case using table_roundtrip(3) s by (simp add: BASE64_PAD_def)
next
  case (4 a b c r)
  then have a: "a < 256" "b < 256" "c < 256" and r: "list_all (\<lambda>b. b < 256) r" by simp_all
  have s: "a div 4 < 64" "a mod 4 * 16 + b div 16 < 64" "b mod 16 * 4 + c div 64 < 64" "c mod 64 < 64"
    using a by auto
  show ?case using table_roundtrip(3) s "4.IH" [OF r] by simp
qed

lemma bytes_decode_ascii: "list_all (\<lambda>c. c < 128) s \<Longrightarrow> bytes_decode s = Inr s"
  by (induction s) simp_all

lemma encode_name_valid:
  assumes "valid_text name"
  shows "\<exists>bs. str_encode name = Inr bs \<and> list_all (\<lambda>b. b < 256) bs \<and>
           bytes_decode bs = Inr name \<and> encode_name name = Inr (b64encode bs)"
proof -
  from str_roundtrip [OF assms] obtain bs where
    bs: "str_encode name = Inr bs" "list_all (\<lambda>b. b < 256) bs"
      "\<And>rest. bytes_decode (bs @ rest) = (case bytes_decode rest of Inl e \<Rightarrow> Inl e | Inr r \<Rightarrow> Inr (name @ r))"
    by blast
  have ascii: "list_all (\<lambda>c. c < 128) (b64encode bs)" by (rule b64encode_ascii [OF bs(2)])
  have enc: "encode_name name = Inr (b64encode bs)"
    using bs(1) bytes_decode_ascii [OF ascii] by (simp add: encode_name_def)
  have dec: "bytes_decode bs = Inr name" using bs(3) [of "[]"] by simp
  show ?thesis
    by (rule exI [of _ bs]) (simp only: bs(1) bs(2) dec enc simp_thms)
qed

text \<open>
  Claim C1. For every display name that is valid text, decoding the token that the
  codec's encoding produces gives back the name: the encoding succeeds with some token,
  and \<open>decode_name\<close> of that token is the name itself.
\<close>

theorem codec_roundtrip:
  assumes "valid_text name"
  shows "\<exists>token. encode_name name = Inr token \<and> decode_name token = Inr name"
proof -
  from encode_name_valid [OF assms] obtain bs where
    bs: "list_all (\<lambda>b. b < 256) bs" "bytes_decode bs = Inr name"
      "encode_name name = Inr (b64encode bs)" by blast
  have "decode_name (b64encode bs) = Inr name"
    using b64encode_ascii [OF bs(1)] b64_roundtrip [OF bs(1)] bs(2)
    by (simp add: decode_name_def b64decode_def a2b_base64_def)
  with bs(3) show ?thesis by blast
qed

theorem codec_roundtrip_witness:
  "valid_text [90, 111, 235] \<and>
   (\<exists>token. encode_name [90, 111, 235] = Inr token \<and> decode_name token = Inr [90, 111, 235])"
proof -
  have h: "valid_text [90, 111, 235]" by (simp add: valid_text_def scalar_value_def)
  show ?thesis using h codec_roundtrip [OF h] by simp
qed

lemma emit_Inl: "emit x r = Inl e \<Longrightarrow> r = Inl e"
  by (cases r) simp_all

lemma a2b_loop_error: "a2b_loop q l p s = Inl e \<Longrightarrow> e = BinasciiError"
proof (induction s arbitrary: q l p)
  case Nil
  then show ?case by (simp split: if_splits)
next
  case (Cons c s)
  then show ?case
    by (auto simp add: a2b_loop.simps(2) split: if_splits option.splits dest!: emit_Inl)
qed

lemma bytes_decode_error: "bytes_decode bs = Inl e \<Longrightarrow> e = UnicodeDecodeError"
proof (induction bs rule: length_induct)
  case (1 bs)
  have IH: "\<And>ys. length ys < length bs \<Longrightarrow> bytes_decode ys = Inl e \<Longrightarrow> e = UnicodeDecodeError"
    using "1.IH" by blast
  note p = "1.prems"
  show ?case
  proof (cases bs)
    case Nil
    with p show ?thesis by simp
  next
    case c0: (Cons b0 r0)
    consider (one) "b0 < 0x80"
      | (two) "\<not> b0 < 0x80" "0xC2 \<le> b0 \<and> b0 \<le> 0xDF"
      | (three) "\<not> b0 < 0x80" "\<not> (0xC2 \<le> b0 \<and> b0 \<le> 0xDF)" "0xE0 \<le> b0 \<and> b0 \<le> 0xEF"
      | (four) "\<not> b0 < 0x80" "\<not> (0xC2 \<le> b0 \<and> b0 \<le> 0xDF)" "\<not> (0xE0 \<le> b0 \<and> b0 \<le> 0xEF)"
          "0xF0 \<le> b0 \<and> b0 \<le> 0xF4"
      | (bad) "\<not> b0 < 0x80" "\<not> (0xC2 \<le> b0 \<and> b0 \<le> 0xDF)" "\<not> (0xE0 \<le> b0 \<and> b0 \<le> 0xEF)"
          "\<not> (0xF0 \<le> b0 \<and> b0 \<le> 0xF4)"
      by blast
    then show ?thesis
    proof cases
      case one
      with p c0 have "emit b0 (bytes_decode r0) = Inl e" by simp
      then have "bytes_decode r0 = Inl e" by (rule emit_Inl)
      then show ?thesis using IH [of r0] c0 by simp
    next
      case two
      show ?thesis
      proof (cases r0)
        case Nil
        with p c0 two show ?thesis by simp
      next
        case c1: (Cons b1 r1)
        show ?thesis
        proof (cases "cont b1")
          case True
          with p c0 c1 two have "emit ((b0 - 0xC0) * 64 + (b1 - 0x80)) (bytes_decode r1) = Inl e"
            by simp
          then have "bytes_decode r1 = Inl e" by (rule emit_Inl)
          then show ?thesis using IH [of r1] c0 c1 by simp
        next
          case False
          with p c0 c1 two show ?thesis by simp
        qed
      qed
    next
      case three
      show ?thesis
      proof (cases r0)
        case Nil
        with p c0 three show ?thesis by simp
      next
        case c1: (Cons b1 r1)
        show ?thesis
        proof (cases r1)
          case Nil
          with p c0 c1 three show ?thesis by simp
        next
          case c2: (Cons b2 r2)
          show ?thesis
          proof (cases "second_ok b0 b1 \<and> cont b2")
            case True
            with p c0 c1 c2 three have
              "emit ((b0 - 0xE0) * 4096 + (b1 - 0x80) * 64 + (b2 - 0x80)) (bytes_decode r2) = Inl e"
              by simp
            then have "bytes_decode r2 = Inl e" by (rule emit_Inl)
            then show ?thesis using IH [of r2] c0 c1 c2 by simp
          next
            case False
            with p c0 c1 c2 three show ?thesis by auto
          qed
        qed
      qed
    next
      case four
      show ?thesis
      proof (cases r0)
        case Nil
        with p c0 four show ?thesis by simp
      next
        case c1: (Cons b1 r1)
        show ?thesis
        proof (cases r1)
          case Nil
          with p c0 c1 four show ?thesis by simp
        next
          case c2: (Cons b2 r2)
          show ?thesis
          proof (cases r2)
            case Nil
            with p c0 c1 c2 four show ?thesis by simp
          next
            case c3: (Cons b3 r3)
            show ?thesis
            proof (cases "second_ok b0 b1 \<and> cont b2 \<and> cont b3")
              case True
              with p c0 c1 c2 c3 four have
                "emit ((b0 - 0xF0) * 262144 + (b1 - 0x80) * 4096 + (b2 - 0x80) * 64 + (b3 - 0x80))
                   (bytes_decode r3) = Inl e"
                by simp
              then have "bytes_decode r3 = Inl e" by (rule emit_Inl)
              then show ?thesis using IH [of r3] c0 c1 c2 c3 by simp
            next
              case False
              with p c0 c1 c2 c3 four show ?thesis by auto
            qed
          qed
        qed
      qed
    next
      case bad
      with p c0 show ?thesis by simp
    qed
  qed
qed

lemma a2b_loop_filter: "a2b_loop q l p (filter in_alphabet s) = a2b_loop q l p s"
proof (induction s arbitrary: q l p)
  case Nil
  then show ?case by simp
next
  case (Cons c s)
  show ?case
  proof (cases "in_alphabet c")
    case True
    then show ?thesis
      by (simp add: a2b_loop.simps(2) Cons.IH split: option.splits)
  next
    case False
    then have "c \<noteq> BASE64_PAD" "table_a2b_base64 c = None" by (simp_all add: in_alphabet_def)
    then show ?thesis using False by (simp add: a2b_loop.simps(2) Cons.IH)
  qed
qed

lemma list_all_filter: "list_all P s \<Longrightarrow> list_all P (filter Q s)"
  by (induction s) simp_all

text \<open>
  Claim C2, as amended. For every input string of ASCII characters, decoding either
  succeeds or fails with \<open>binascii.Error\<close> or \<open>UnicodeDecodeError\<close> and with
  nothing else: \<open>binascii.Error\<close> exactly when the base64 decoder rejects the input (a
  group of four left open at the end), and otherwise the result of decoding the bytes as
  UTF-8. Characters outside the alphabet are skipped, not rejected: removing them does
  not change the result.
\<close>

theorem decode_name_ascii:
  assumes "list_all (\<lambda>c. c < 128) s"
  shows "decode_name s = decode_name (filter in_alphabet s) \<and>
         (\<forall>err. decode_name s = Inl err \<longrightarrow> err = BinasciiError \<or> err = UnicodeDecodeError) \<and>
         (decode_name s = Inl BinasciiError) = (a2b_base64 s = Inl BinasciiError) \<and>
         (\<forall>bs. a2b_base64 s = Inr bs \<longrightarrow> decode_name s = bytes_decode bs)"
proof -
  have f: "list_all (\<lambda>c. c < 128) (filter in_alphabet s)" by (rule list_all_filter [OF assms])
  have 1: "decode_name s = decode_name (filter in_alphabet s)"
    using assms f by (simp add: decode_name_def b64decode_def a2b_base64_def a2b_loop_filter)
  have d: "decode_name s = (case a2b_base64 s of Inl e \<Rightarrow> Inl e | Inr bs \<Rightarrow> bytes_decode bs)"
    using assms by (simp add: decode_name_def b64decode_def)
  have 2: "\<forall>err. decode_name s = Inl err \<longrightarrow> err = BinasciiError \<or> err = UnicodeDecodeError"
    unfolding d using a2b_loop_error [of 0 0 0 s] bytes_decode_error
    by (auto simp add: a2b_base64_def split: sum.splits)
  have 3: "(decode_name s = Inl BinasciiError) = (a2b_base64 s = Inl BinasciiError)"
    unfolding d using a2b_loop_error [of 0 0 0 s] bytes_decode_error
    by (auto simp add: a2b_base64_def split: sum.splits)
  have 4: "\<forall>bs. a2b_base64 s = Inr bs \<longrightarrow> decode_name s = bytes_decode bs"
    unfolding d by simp
  from 1 2 3 4 show ?thesis by blast
qed

theorem decode_name_ascii_witness:
  "list_all (\<lambda>c. c < 128) [89, 33, 81, 61, 61 :: nat] \<and>
   decode_name [89, 33, 81, 61, 61] = decode_name [89, 81, 61, 61] \<and>
   decode_name [89, 81, 61, 61] = Inr [97] \<and>
   decode_name [65] = Inl BinasciiError \<and>
   decode_name [47, 119, 61, 61] = Inl UnicodeDecodeError"
proof -
  have h: "list_all (\<lambda>c. c < 128) [89, 33, 81, 61, 61 :: nat]" by simp
  have "filter in_alphabet [89, 33, 81, 61, 61] = [89, 81, 61, 61]"
    by (simp add: in_alphabet_def table_a2b_base64_def BASE64_PAD_def)
  moreover have "decode_name [89, 81, 61, 61] = Inr [97]"
    by (simp add: decode_name_def b64decode_def a2b_base64_def a2b_loop.simps(2)
        table_a2b_base64_def BASE64_PAD_def)
  moreover have "decode_name [65] = Inl BinasciiError"
    by (simp add: decode_name_def b64decode_def a2b_base64_def a2b_loop.simps(2)
        table_a2b_base64_def BASE64_PAD_def)
  moreover have "decode_name [47, 119, 61, 61] = Inl UnicodeDecodeError"
    by (simp add: decode_name_def b64decode_def a2b_base64_def a2b_loop.simps(2)
        table_a2b_base64_def BASE64_PAD_def)
  ultimately show ?thesis using h decode_name_ascii [OF h] by simp
qed

text \<open>
  The claim as stated fails: the input \<open>Y!Q==\<close> contains \<open>!\<close>, which is outside
  the alphabet, and decodes to \<open>a\<close>; and the input \<open>U+00E9\<close>, which is not ASCII,
  raises a plain \<open>ValueError\<close>, which is neither of the two decode errors: sent as a
  message in the request channel it leaves \<open>on_message\<close> uncaught, with nothing queued
  and nothing reported.
\<close>

theorem decode_name_counterexample:
  "\<not> in_alphabet 33 \<and> decode_name [89, 33, 81, 61, 61] = Inr [97] \<and>
   decode_name [233] = Inl ValueError \<and>
   on_message ChannelSends \<lparr>author_is_bot = False, in_request_channel = True, content = [233]\<rparr>
       (initial_bot [])
     = (initial_bot [], Some ValueError)"
proof -
  have d: "decode_name [89, 33, 81, 61, 61] = Inr [97]" "decode_name [233] = Inl ValueError"
    by (simp_all add: decode_name_def b64decode_def a2b_base64_def a2b_loop.simps(2)
        table_a2b_base64_def BASE64_PAD_def)
  have s: "py_strip [233] = [233]"
    by (simp add: py_strip_def isspace_char_def in_ranges_def space_ranges_def)
  show ?thesis
    by (simp add: d s on_message_def Let_def in_alphabet_def table_a2b_base64_def BASE64_PAD_def)
qed

section \<open>The trigger client\<close>

text \<open>
  Claim C5. For every trigger action and optional payload, \<open>_call_trigger\<close> returns
  true exactly when the token is set and the POST meets a successful response whose body
  is read to the end; a missing token, an HTTP error and any other exception of the
  \<open>try\<close> body give false, with one line logged, and no exception leaves the function.
\<close>

theorem call_trigger_result:
  "fst (call_trigger token net trig ps) =
     (token \<noteq> [] \<and> net (build_request token trig ps) = Response True) \<and>
   (\<forall>exc. try_call_trigger token net trig ps = Inl exc \<longrightarrow>
      fst (call_trigger token net trig ps) = False \<and>
      length (snd (call_trigger token net trig ps)) = 1)"
  by (simp add: call_trigger_def try_call_trigger_def split: http_outcome.splits)

theorem call_trigger_result_witness:
  "fst (call_trigger [116] (\<lambda>_. Response True) ''cohost'' None) = True \<and>
   try_call_trigger [116] (\<lambda>_. HTTPError 500 None) ''cohost'' None = Inl (HTTPErrorRaised 500 None) \<and>
   fst (call_trigger [116] (\<lambda>_. HTTPError 500 None) ''cohost'' None) = False \<and>
   fst (call_trigger [] (\<lambda>_. Response True) ''cohost'' None) = False \<and>
   fst (call_trigger [116] (\<lambda>_. OtherError) ''cohost'' None) = False \<and>
   fst (call_trigger [116] (\<lambda>_. Response False) ''cohost'' None) = False"
proof -
  have h: "try_call_trigger [116] (\<lambda>_. HTTPError 500 None) ''cohost'' None
           = Inl (HTTPErrorRaised 500 None)"
    by (simp add: try_call_trigger_def)
  show ?thesis
    using h
      call_trigger_result [of "[116]" "\<lambda>_. Response True" "''cohost''" None]
      call_trigger_result [of "[116]" "\<lambda>_. HTTPError 500 None" "''cohost''" None]
      call_trigger_result [of "[]" "\<lambda>_. Response True" "''cohost''" None]
      call_trigger_result [of "[116]" "\<lambda>_. OtherError" "''cohost''" None]
      call_trigger_result [of "[116]" "\<lambda>_. Response False" "''cohost''" None]
    by simp
qed

section \<open>The key-value store\<close>

text \<open>
  With no remote backend in use, \<open>load_data\<close> returns the empty mapping when the
  local file is missing, and returns the empty mapping and logs an error when the file's
  text is not JSON; nothing is raised in either case, and nothing else of the world
  changes.
\<close>

lemma load_data_local:
  "\<not> fb_ref w \<and> \<not> fb_init_fails w \<Longrightarrow>
     (data_file w = Missing \<longrightarrow> load_data w = Inr (Dict Map.empty, w)) \<and>
     (data_file w = Malformed \<longrightarrow>
        load_data w = Inr (Dict Map.empty, w\<lparr>logged := logged w @ [InvalidJSONDataFile]\<rparr>))"
  by (simp add: load_data_def get_realtime_db_def read_data_file_def logging_error_def)

lemma load_data_local_example:
  "\<not> fb_ref fresh_world \<and> \<not> fb_init_fails fresh_world \<and>
   load_data (fresh_world\<lparr>data_file := Missing\<rparr>)
     = Inr (Dict Map.empty, fresh_world\<lparr>data_file := Missing\<rparr>) \<and>
   load_data (fresh_world\<lparr>data_file := Malformed\<rparr>)
     = Inr (Dict Map.empty, fresh_world\<lparr>data_file := Malformed, logged := [InvalidJSONDataFile]\<rparr>)"
  using load_data_local [of "fresh_world\<lparr>data_file := Missing\<rparr>"]
    load_data_local [of "fresh_world\<lparr>data_file := Malformed\<rparr>"]
  by (simp add: fresh_world_def)

text \<open>
  Claim C9. The claim asks for the empty mapping, and no error, whenever the local
  file's contents are not valid JSON. The code does so only for what \<open>json.load\<close>
  rejects with \<open>JSONDecodeError\<close>: with no remote backend in use, a data file whose
  bytes are not UTF-8 makes \<open>load_data\<close> raise \<open>UnicodeDecodeError\<close>, with nothing
  logged.
\<close>

theorem load_data_not_utf8:
  "\<not> fb_ref fresh_world \<and> \<not> fb_init_fails fresh_world \<and>
   load_data (fresh_world\<lparr>data_file := Unreadable NotUTF8\<rparr>)
     = Inl (UnicodeDecodeError, fresh_world\<lparr>data_file := Unreadable NotUTF8\<rparr>)"
  by (simp add: load_data_def get_realtime_db_def read_data_file_def raised_by_def fresh_world_def)

text \<open>
  Claim C8. When the remote backend is configured and its write raises, \<open>save_data\<close>
  raises nothing and writes the mapping to the local file, and a later \<open>load_data\<close>
  whose remote read raises as well, or that runs without the remote backend, returns the
  saved mapping.
\<close>

theorem remote_write_failure:
  assumes "fb_ref w" and "\<not> fb_up w (fb_calls w)"
  shows "\<exists>w'. save_data d w = Inr w' \<and> data_file w' = Document (Dict d) \<and>
           (\<not> fb_up w (Suc (fb_calls w)) \<longrightarrow> (\<exists>w''. load_data w' = Inr (Dict d, w''))) \<and>
           (\<exists>w''. load_data (w'\<lparr>fb_ref := False, fb_init_fails := False\<rparr>) = Inr (Dict d, w''))"
proof -
  have s: "save_data d w = Inr (w\<lparr>fb_calls := fb_calls w + 1,
        logged := logged w @ [FirebaseWriteFailed], data_file := Document (Dict d)\<rparr>)"
    using assms
    by (simp add: save_data_def get_realtime_db_def fb_call_def write_data_file_def logging_error_def)
  show ?thesis unfolding s using assms(1)
    by (simp add: load_data_def get_realtime_db_def fb_call_def read_data_file_def logging_error_def)
qed

theorem remote_write_failure_witness:
  "fb_ref (fresh_world\<lparr>fb_ref := True\<rparr>) \<and>
   \<not> fb_up (fresh_world\<lparr>fb_ref := True\<rparr>) (fb_calls (fresh_world\<lparr>fb_ref := True\<rparr>)) \<and>
   (\<exists>w'. save_data [''hostbot'' \<mapsto> Namespace empty_namespace] (fresh_world\<lparr>fb_ref := True\<rparr>) = Inr w' \<and>
      data_file w' = Document (Dict [''hostbot'' \<mapsto> Namespace empty_namespace]) \<and>
      (\<exists>w''. load_data w' = Inr (Dict [''hostbot'' \<mapsto> Namespace empty_namespace], w'')))"
proof -
  have h: "fb_ref (fresh_world\<lparr>fb_ref := True\<rparr>)"
    "\<not> fb_up (fresh_world\<lparr>fb_ref := True\<rparr>) (fb_calls (fresh_world\<lparr>fb_ref := True\<rparr>))"
    "\<not> fb_up (fresh_world\<lparr>fb_ref := True\<rparr>) (Suc (fb_calls (fresh_world\<lparr>fb_ref := True\<rparr>)))"
    by (simp_all add: fresh_world_def)
  from remote_write_failure [OF h(1) h(2), of "[''hostbot'' \<mapsto> Namespace empty_namespace]"]
  obtain w' where w': "save_data [''hostbot'' \<mapsto> Namespace empty_namespace] (fresh_world\<lparr>fb_ref := True\<rparr>) = Inr w'"
    "data_file w' = Document (Dict [''hostbot'' \<mapsto> Namespace empty_namespace])"
    "\<not> fb_up (fresh_world\<lparr>fb_ref := True\<rparr>) (Suc (fb_calls (fresh_world\<lparr>fb_ref := True\<rparr>))) \<longrightarrow>
       (\<exists>w''. load_data w' = Inr (Dict [''hostbot'' \<mapsto> Namespace empty_namespace], w''))"
    by blast
  from w'(3) h(3) have "\<exists>w''. load_data w' = Inr (Dict [''hostbot'' \<mapsto> Namespace empty_namespace], w'')"
    by blast
  with h(1) h(2) w'(1) w'(2) show ?thesis by blast
qed

lemma load_modify_save_well_shaped:
  assumes "\<not> fb_ref w" "\<not> fb_init_fails w" "well_shaped (data_file w)"
  shows "\<exists>w'. load_modify_save f w = Inr w'"
proof (cases "data_file w")
  case Missing
  then show ?thesis using assms
    by (simp add: load_modify_save_def load_data_def get_realtime_db_def read_data_file_def
        update_namespace_def save_data_def)
next
  case Malformed
  then show ?thesis using assms
    by (simp add: load_modify_save_def load_data_def get_realtime_db_def read_data_file_def
        update_namespace_def save_data_def logging_error_def)
next
  case (Unreadable x)
  then show ?thesis using assms by (simp add: well_shaped_def)
next
  case (Document d)
  show ?thesis
  proof (cases d)
    case NotDict
    then show ?thesis using assms Document by (simp add: well_shaped_def)
  next
    case (Dict st)
    then show ?thesis using assms Document
      by (cases "st DATA_USER_PATH")
         (auto simp add: well_shaped_def load_modify_save_def load_data_def get_realtime_db_def
            read_data_file_def update_namespace_def save_data_def split: ns_value.splits)
  qed
qed

lemma load_modify_save_remote_down:
  assumes "fb_ref w" "\<not> fb_up w (fb_calls w)" "well_shaped (data_file w)"
  shows "\<exists>w'. load_modify_save f w = Inr w'"
proof -
  have g: "get_realtime_db w = Inr True" using assms(1) by (simp add: get_realtime_db_def)
  define w1 where "w1 = logging_error FirebaseReadFailed (w\<lparr>fb_calls := fb_calls w + 1\<rparr>)"
  have l: "load_data w = read_data_file w1"
    using assms(1,2) by (simp add: load_data_def g fb_call_def w1_def)
  have f1: "fb_ref w1" "data_file w1 = data_file w"
    using assms(1) by (simp_all add: w1_def logging_error_def)
  have sv: "\<exists>w'. save_data st w2 = Inr w'" if "fb_ref w2" for st w2
    using that by (simp add: save_data_def get_realtime_db_def fb_call_def split: prod.splits bool.splits)
  show ?thesis
  proof (cases "data_file w")
    case Missing
    then show ?thesis using sv [of w1] f1
      by (simp add: load_modify_save_def l read_data_file_def update_namespace_def)
  next
    case Malformed
    have "fb_ref (logging_error InvalidJSONDataFile w1)" using f1 by (simp add: logging_error_def)
    from sv [OF this] show ?thesis using Malformed f1
      by (simp add: load_modify_save_def l read_data_file_def update_namespace_def)
  next
    case (Unreadable x)
    then show ?thesis using assms by (simp add: well_shaped_def)
  next
    case (Document d)
    show ?thesis
    proof (cases d)
      case NotDict
      then show ?thesis using assms Document by (simp add: well_shaped_def)
    next
      case (Dict st)
      show ?thesis
      proof (cases "st DATA_USER_PATH")
        case None
        then show ?thesis using sv [of w1] f1 Document Dict
          by (simp add: load_modify_save_def l read_data_file_def update_namespace_def)
      next
        case (Some v)
        then obtain b where "v = Namespace b" using assms(3) Document Dict
          by (cases v) (simp_all add: well_shaped_def)
        then show ?thesis using sv [of w1] f1 Document Dict Some
          by (simp add: load_modify_save_def l read_data_file_def update_namespace_def)
      qed
    qed
  qed
qed

text \<open>
  Claim C10, as amended. For every user id and every display name that is valid text
  (a name that has UTF-8 bytes), whenever \<open>save_zoom_name_to_file\<close> returns, it returns
  the base64 encoding of those bytes, whichever backend took the record. It returns when
  the remote write of the user's record succeeds; when that write and the remote read of
  the fallback fail and the data file is well shaped; and when only the local file is in
  use and it is well shaped.
\<close>

theorem save_zoom_name_token:
  assumes "valid_text name"
  shows "\<exists>bs. str_encode name = Inr bs \<and>
     (\<forall>w user_id.
        (\<forall>token w'. save_zoom_name_to_file user_id name w = Inr (token, w') \<longrightarrow>
           token = b64encode bs) \<and>
        (fb_ref w \<and> fb_up w (fb_calls w) \<longrightarrow>
           (\<exists>w'. save_zoom_name_to_file user_id name w = Inr (b64encode bs, w'))) \<and>
        (fb_ref w \<and> \<not> fb_up w (fb_calls w) \<and> \<not> fb_up w (Suc (fb_calls w)) \<and>
         well_shaped (data_file w) \<longrightarrow>
           (\<exists>w'. save_zoom_name_to_file user_id name w = Inr (b64encode bs, w'))) \<and>
        (\<not> fb_ref w \<and> \<not> fb_init_fails w \<and> well_shaped (data_file w) \<longrightarrow>
           (\<exists>w'. save_zoom_name_to_file user_id name w = Inr (b64encode bs, w'))))"
proof -
  from encode_name_valid [OF assms] obtain bs where
    bs: "str_encode name = Inr bs" "encode_name name = Inr (b64encode bs)" by blast
  have 1: "token = b64encode bs"
    if "save_zoom_name_to_file user_id name w = Inr (token, w')" for w user_id token w'
    using that bs(2)
    by (auto simp add: save_zoom_name_to_file_def Let_def fb_call_def
        split: sum.splits if_splits prod.splits bool.splits)
  have 2: "\<exists>w'. save_zoom_name_to_file user_id name w = Inr (b64encode bs, w')"
    if "fb_ref w" "fb_up w (fb_calls w)" for w user_id
    using that bs(2)
    by (simp add: save_zoom_name_to_file_def Let_def get_realtime_db_def fb_call_def)
  have 3: "\<exists>w'. save_zoom_name_to_file user_id name w = Inr (b64encode bs, w')"
    if h: "fb_ref w" "\<not> fb_up w (fb_calls w)" "\<not> fb_up w (Suc (fb_calls w))"
      "well_shaped (data_file w)" for w user_id
  proof -
    define w1 where "w1 = logging_error FirebaseWriteFailed (w\<lparr>fb_calls := fb_calls w + 1\<rparr>)"
    have "fb_ref w1" "\<not> fb_up w1 (fb_calls w1)" "well_shaped (data_file w1)"
      using h by (simp_all add: w1_def logging_error_def)
    from load_modify_save_remote_down [OF this] obtain w' where
      "load_modify_save (\<lambda>b. b\<lparr>users := (users b)(str_of_nat user_id \<mapsto>
          \<lparr>zoomName = name, base64 = b64encode bs, lastUsed = now w, telegramId = []\<rparr>)\<rparr>) w1 = Inr w'"
      by blast
    then show ?thesis using h(1,2) bs(2)
      by (simp add: save_zoom_name_to_file_def Let_def get_realtime_db_def fb_call_def w1_def)
  qed
  have 4: "\<exists>w'. save_zoom_name_to_file user_id name w = Inr (b64encode bs, w')"
    if h: "\<not> fb_ref w" "\<not> fb_init_fails w" "well_shaped (data_file w)" for w user_id
  proof -
    from load_modify_save_well_shaped [OF h] obtain w' where
      "load_modify_save (\<lambda>b. b\<lparr>users := (users b)(str_of_nat user_id \<mapsto>
          \<lparr>zoomName = name, base64 = b64encode bs, lastUsed = now w, telegramId = []\<rparr>)\<rparr>) w = Inr w'"
      by blast
    then show ?thesis using h(1,2) bs(2)
      by (simp add: save_zoom_name_to_file_def Let_def get_realtime_db_def)
  qed
  show ?thesis
    by (rule exI [of _ bs]) (use bs(1) 1 2 3 4 in blast)
qed

theorem save_zoom_name_token_witness:
  "valid_text [90, 111, 235] \<and> str_encode [90, 111, 235] = Inr [90, 111, 195, 171] \<and>
   b64encode [90, 111, 195, 171] = [87, 109, 47, 68, 113, 119, 61, 61] \<and>
   well_shaped (data_file fresh_world) \<and>
   (\<exists>w'. save_zoom_name_to_file 7 [90, 111, 235] fresh_world
            = Inr ([87, 109, 47, 68, 113, 119, 61, 61], w')) \<and>
   (\<exists>w'. save_zoom_name_to_file 7 [90, 111, 235] (fresh_world\<lparr>fb_ref := True\<rparr>)
            = Inr ([87, 109, 47, 68, 113, 119, 61, 61], w')) \<and>
   (\<exists>w'. save_zoom_name_to_file 7 [90, 111, 235] (fresh_world\<lparr>fb_ref := True, fb_up := (\<lambda>_. True)\<rparr>)
            = Inr ([87, 109, 47, 68, 113, 119, 61, 61], w'))"
proof -
  have h: "valid_text [90, 111, 235]" by (simp add: valid_text_def scalar_value_def)
  have e: "str_encode [90, 111, 235] = Inr [90, 111, 195, 171]" by (simp add: utf8_char_def)
  have b: "b64encode [90, 111, 195, 171] = [87, 109, 47, 68, 113, 119, 61, 61]"
    by (simp add: table_b2a_base64_def BASE64_PAD_def)
  have f: "well_shaped (data_file fresh_world)" "\<not> fb_ref fresh_world" "\<not> fb_init_fails fresh_world"
    "fb_ref (fresh_world\<lparr>fb_ref := True\<rparr>)"
    "\<not> fb_up (fresh_world\<lparr>fb_ref := True\<rparr>) (fb_calls (fresh_world\<lparr>fb_ref := True\<rparr>))"
    "\<not> fb_up (fresh_world\<lparr>fb_ref := True\<rparr>) (Suc (fb_calls (fresh_world\<lparr>fb_ref := True\<rparr>)))"
    "well_shaped (data_file (fresh_world\<lparr>fb_ref := True\<rparr>))"
    "fb_ref (fresh_world\<lparr>fb_ref := True, fb_up := (\<lambda>_. True)\<rparr>)"
    "fb_up (fresh_world\<lparr>fb_ref := True, fb_up := (\<lambda>_. True)\<rparr>)
       (fb_calls (fresh_world\<lparr>fb_ref := True, fb_up := (\<lambda>_. True)\<rparr>))"
    by (simp_all add: fresh_world_def well_shaped_def)
  from save_zoom_name_token [OF h] e obtain
    t: "\<And>w user_id. fb_ref w \<and> fb_up w (fb_calls w) \<longrightarrow>
           (\<exists>w'. save_zoom_name_to_file user_id [90, 111, 235] w = Inr (b64encode [90, 111, 195, 171], w'))"
       "\<And>w user_id. fb_ref w \<and> \<not> fb_up w (fb_calls w) \<and> \<not> fb_up w (Suc (fb_calls w)) \<and>
         well_shaped (data_file w) \<longrightarrow>
           (\<exists>w'. save_zoom_name_to_file user_id [90, 111, 235] w = Inr (b64encode [90, 111, 195, 171], w'))"
       "\<And>w user_id. \<not> fb_ref w \<and> \<not> fb_init_fails w \<and> well_shaped (data_file w) \<longrightarrow>
           (\<exists>w'. save_zoom_name_to_file user_id [90, 111, 235] w = Inr (b64encode [90, 111, 195, 171], w'))"
    by auto
  show ?thesis
    using h e b f(1) t(3) [of fresh_world 7] f(2,3) t(2) [of "fresh_world\<lparr>fb_ref := True\<rparr>" 7] f(4-7)
      t(1) [of "fresh_world\<lparr>fb_ref := True, fb_up := (\<lambda>_. True)\<rparr>" 7] f(8,9)
    by (simp only: b simp_thms)
qed

text \<open>
  The claim as stated fails: a display name with a lone surrogate (\<open>U+D800\<close>) has
  no UTF-8 bytes and makes the function raise \<open>UnicodeEncodeError\<close>; and for the name
  \<open>a\<close>, whose token is \<open>YQ==\<close>, a data file that is not UTF-8, or that holds a JSON
  value that is not a dictionary, makes the local path raise, and a failing
  initialisation of Firebase makes \<open>_user_ref\<close> raise, so that no token is returned.
\<close>

theorem save_zoom_name_counterexample:
  "save_zoom_name_to_file 7 [55296] fresh_world = Inl (UnicodeEncodeError, fresh_world) \<and>
   encode_name [97] = Inr [89, 81, 61, 61] \<and>
   save_zoom_name_to_file 7 [97] (fresh_world\<lparr>data_file := Unreadable NotUTF8\<rparr>)
     = Inl (UnicodeDecodeError, fresh_world\<lparr>data_file := Unreadable NotUTF8\<rparr>) \<and>
   save_zoom_name_to_file 7 [97] (fresh_world\<lparr>data_file := Document NotDict\<rparr>)
     = Inl (AttributeError, fresh_world\<lparr>data_file := Document NotDict\<rparr>) \<and>
   save_zoom_name_to_file 7 [97] (fresh_world\<lparr>fb_init_fails := True\<rparr>)
     = Inl (FirebaseInitError, fresh_world\<lparr>fb_init_fails := True\<rparr>)"
proof -
  have e: "encode_name [97] = Inr [89, 81, 61, 61]" "encode_name [55296] = Inl UnicodeEncodeError"
    by (simp_all add: encode_name_def utf8_char_def table_b2a_base64_def BASE64_PAD_def)
  show ?thesis
    by (simp add: e save_zoom_name_to_file_def Let_def get_realtime_db_def load_modify_save_def
        load_data_def read_data_file_def raised_by_def update_namespace_def fresh_world_def)
qed

section \<open>The co-host request queue\<close>


lemma process_request_no_dequeue: "list_all (\<lambda>ev. \<not> is_dequeue ev) (fst (process_request e r))"
  by (simp add: process_request_def Let_def send_log_embed_def
      split: sum.splits channel_state.splits)

lemma turn_events_eq:
  "turn_events e r =
     Dequeued r # (fst (process_request e r) @
       (case snd (process_request e r) of Inl err \<Rightarrow> [WorkerError err] | Inr _ \<Rightarrow> []))"
  by (cases "process_request e r") (simp add: turn_events_def)

lemma turn_events_shape:
  "\<exists>mid. turn_events e r = Dequeued r # mid \<and> list_all (\<lambda>ev. \<not> is_dequeue ev) mid"
  using process_request_no_dequeue [of e r]
  by (simp add: turn_events_eq split: sum.splits)



lemma asyncio_sleep_cases:
  "(d < 2 ^ 1024 - 2 ^ 970 \<and> asyncio_sleep d = Inr ()) \<or>
   (\<not> d < 2 ^ 1024 - 2 ^ 970 \<and> asyncio_sleep d = Inl OverflowError)"
  by (simp add: asyncio_sleep_def)

lemma worker_iteration_sleeps:
  "asyncio_sleep (queue_delay b) = Inr () \<Longrightarrow>
     worker_iteration e r b
       = (b\<lparr>trace := trace b @ turn_events e r @ [Slept (queue_delay b)]\<rparr>, None)"
  by (simp add: worker_iteration_def Let_def)

lemma worker_iteration_raises:
  "asyncio_sleep (queue_delay b) = Inl err \<Longrightarrow>
     worker_iteration e r b = (b\<lparr>trace := trace b @ turn_events e r\<rparr>, Some err)"
  by (simp add: worker_iteration_def Let_def)

lemma queue_worker_trace:
  "asyncio_sleep (queue_delay b) = Inr () \<Longrightarrow>
     trace (fst (queue_worker es b)) = trace b @ turns es (request_queue b) (queue_delay b) \<and>
     request_queue (fst (queue_worker es b)) = drop (length es) (request_queue b) \<and>
     queue_delay (fst (queue_worker es b)) = queue_delay b \<and>
     snd (queue_worker es b) = None"
proof (induction es arbitrary: b)
  case Nil
  then show ?case by simp
next
  case (Cons e es)
  show ?case
  proof (cases "request_queue b")
    case Nil
    then show ?thesis by simp
  next
    case (Cons r q)
    define b' where "b' = b\<lparr>request_queue := q,
        trace := trace b @ turn_events e r @ [Slept (queue_delay b)]\<rparr>"
    have s: "asyncio_sleep (queue_delay b') = Inr ()" using Cons.prems by (simp add: b'_def)
    have w: "worker_iteration e r (b\<lparr>request_queue := q\<rparr>) = (b', None)"
      using worker_iteration_sleeps [of "b\<lparr>request_queue := q\<rparr>" e r] Cons.prems
      by (simp add: b'_def)
    have q: "queue_worker (e # es) b = queue_worker es b'"
      using Cons w by simp
    show ?thesis
      using Cons.IH [OF s] Cons by (simp add: q b'_def del: queue_worker.simps)
  qed
qed

lemma queue_worker_raises:
  "asyncio_sleep (queue_delay b) = Inl err \<Longrightarrow> request_queue b = r # q \<Longrightarrow>
     queue_worker (e # es) b = (b\<lparr>request_queue := q, trace := trace b @ turn_events e r\<rparr>, Some err)"
  using worker_iteration_raises [of "b\<lparr>request_queue := q\<rparr>" err e r] by simp


lemma cooldown_mid:
  "list_all (\<lambda>ev. \<not> is_dequeue ev) mid \<Longrightarrow>
     cooldown_kept d (ev # mid @ Slept d # rest) = cooldown_kept d (Slept d # rest)"
proof (induction mid arbitrary: ev)
  case Nil
  then show ?case by simp
next
  case (Cons m mid)
  then show ?case by simp
qed

lemma cooldown_no_dequeue:
  "list_all (\<lambda>ev. \<not> is_dequeue ev) mid \<Longrightarrow> cooldown_kept d (ev # mid)"
proof (induction mid arbitrary: ev)
  case Nil
  then show ?case by simp
next
  case (Cons m mid)
  then show ?case by simp
qed

lemma cooldown_turns: "cooldown_kept d (turns es q d)"
proof (induction es q d rule: turns.induct)
  case (1 e es r q d)
  from turn_events_shape [of e r] obtain mid where
    m: "turn_events e r = Dequeued r # mid" "list_all (\<lambda>ev. \<not> is_dequeue ev) mid" by blast
  have "cooldown_kept d (Slept d # turns es q d)"
  proof (cases "turns es q d")
    case Nil
    then show ?thesis by simp
  next
    case (Cons x xs)
    with 1 show ?thesis by simp
  qed
  then show ?case using cooldown_mid [OF m(2), of d "Dequeued r" "turns es q d"] by (simp add: m(1))
qed simp_all

lemma queue_worker_cooldown:
  "\<exists>new. trace (fst (queue_worker es b)) = trace b @ new \<and> cooldown_kept (queue_delay b) new"
proof (cases "asyncio_sleep (queue_delay b)")
  case (Inr u)
  then have "asyncio_sleep (queue_delay b) = Inr ()" by simp
  from queue_worker_trace [OF this, of es] show ?thesis by (simp add: cooldown_turns)
next
  case (Inl err)
  show ?thesis
  proof (cases es)
    case Nil
    then show ?thesis by (simp add: exI [of _ "[]"])
  next
    case (Cons e es')
    show ?thesis
    proof (cases "request_queue b")
      case Nil
      then show ?thesis using Cons by (simp add: exI [of _ "[]"])
    next
      case q: (Cons r q)
      from turn_events_shape [of e r] obtain mid where
        m: "turn_events e r = Dequeued r # mid" "list_all (\<lambda>ev. \<not> is_dequeue ev) mid" by blast
      show ?thesis
        using queue_worker_raises [OF Inl q, of e es'] Cons cooldown_no_dequeue [OF m(2)]
        by (simp add: m(1) del: queue_worker.simps)
    qed
  qed
qed






lemma process_request_called:
  "TriggerCalled (encoded_name r)
     (fst (send_trigger_cmd (TRIGGERCMD_TOKEN e) (urlopen e) (encoded_name r)))
   \<in> set (fst (process_request e r))"
  by (simp add: process_request_def Let_def split: sum.splits)

lemma process_request_decode_error:
  "decode_name (encoded_name r) = Inl err \<Longrightarrow> snd (process_request e r) = Inl err"
  by (simp add: process_request_def Let_def)

subsection \<open>A queue delay beyond what the sleep accepts\<close>

lemma decimal_value_zero: "decimal_value 48 = Some 0"
  by (simp add: decimal_value_def decimal_ranges_def)

lemma digits_value_zeros: "digits_value n (replicate k 48) = Some (n * 10 ^ k)"
  by (induction k arbitrary: n) (simp_all add: decimal_value_zero)

lemma isdigit_zeros: "list_all isdigit_char (replicate k 48)"
  by (induction k) (simp_all add: isdigit_char_def in_ranges_def digit_ranges_def)

lemma set_queue_delay_huge:
  "set_queue_delay (50 # replicate 308 48) b
     = (b\<lparr>queue_delay := 2 * 10 ^ 308\<rparr>, Replied QueueDelayUpdated)"
proof -
  have d: "decimal_value 50 = Some 2" by (simp add: decimal_value_def decimal_ranges_def)
  have i: "isdigit_char 50" by (simp add: isdigit_char_def in_ranges_def digit_ranges_def)
  have "py_int (50 # replicate 308 48) = Inr (2 * 10 ^ 308)"
    by (simp add: py_int_def d digits_value_zeros)
  then show ?thesis
    by (simp add: set_queue_delay_def py_isdigit_def i isdigit_zeros)
qed

lemma asyncio_sleep_huge: "asyncio_sleep (2 * 10 ^ 308) = Inl OverflowError"
  by (simp add: asyncio_sleep_def)

lemma asyncio_sleep_default: "asyncio_sleep 10 = Inr ()"
  by (simp add: asyncio_sleep_def)






text \<open>
  Claim C6, as amended. Whatever the first queued request is and whatever the
  environment does, every exception of the processing step is caught and logged by the
  worker (a failure to decode the \<open>encoded_name\<close> is such an exception; a failing
  trigger call is no exception at all, only a \<open>False\<close> result, recorded with the call);
  and when the configured queue delay is one that the sleep accepts, the worker goes
  through the cooldown and its next turn takes the next item: the trace goes on with
  \<open>Slept\<close> and then \<open>Dequeued\<close> of the second request, and no exception has ended the
  worker.
\<close>

theorem failing_item_does_not_halt_worker:
  assumes "request_queue b = r # r' # q" and "queue_delay b < 2 ^ 1024 - 2 ^ 970"
  shows "\<exists>mid rest.
           trace (fst (queue_worker (e # e' # es) b))
             = trace b @ Dequeued r # mid @ Slept (queue_delay b) # Dequeued r' # rest \<and>
           snd (queue_worker (e # e' # es) b) = None \<and>
           list_all (\<lambda>ev. \<not> is_dequeue ev) mid \<and>
           TriggerCalled (encoded_name r)
             (fst (send_trigger_cmd (TRIGGERCMD_TOKEN e) (urlopen e) (encoded_name r))) \<in> set mid \<and>
           (\<forall>err. snd (process_request e r) = Inl err \<longrightarrow> WorkerError err \<in> set mid) \<and>
           (\<forall>err. decode_name (encoded_name r) = Inl err \<longrightarrow> WorkerError err \<in> set mid)"
proof -
  define mid where "mid = fst (process_request e r) @
       (case snd (process_request e r) of Inl err \<Rightarrow> [WorkerError err] | Inr _ \<Rightarrow> [])"
  from turn_events_shape [of e' r'] obtain mid' where
    m': "turn_events e' r' = Dequeued r' # mid'" by blast
  have s: "asyncio_sleep (queue_delay b) = Inr ()" using assms(2) by (simp add: asyncio_sleep_def)
  from queue_worker_trace [OF s, of "e # e' # es"]
  have t: "trace (fst (queue_worker (e # e' # es) b))
        = trace b @ turns (e # e' # es) (request_queue b) (queue_delay b)"
    and 0: "snd (queue_worker (e # e' # es) b) = None"
    by blast+
  have 1: "trace (fst (queue_worker (e # e' # es) b))
      = trace b @ Dequeued r # mid @ Slept (queue_delay b) # Dequeued r' #
          (mid' @ Slept (queue_delay b) # turns es q (queue_delay b))"
    using t assms(1) by (simp add: turn_events_eq [of e r] m' mid_def del: queue_worker.simps)
  have 2: "list_all (\<lambda>ev. \<not> is_dequeue ev) mid"
    using process_request_no_dequeue [of e r] by (simp add: mid_def split: sum.splits)
  have 3: "TriggerCalled (encoded_name r)
             (fst (send_trigger_cmd (TRIGGERCMD_TOKEN e) (urlopen e) (encoded_name r))) \<in> set mid"
    using process_request_called [of r e] by (simp add: mid_def)
  have 4: "\<forall>err. snd (process_request e r) = Inl err \<longrightarrow> WorkerError err \<in> set mid"
    by (simp add: mid_def)
  have 5: "\<forall>err. decode_name (encoded_name r) = Inl err \<longrightarrow> WorkerError err \<in> set mid"
    using process_request_decode_error [of r _ e] by (simp add: mid_def)
  from 0 1 2 3 4 5 show ?thesis by blast
qed

theorem failing_item_does_not_halt_worker_witness:
  "request_queue ((initial_bot [])\<lparr>request_queue := [Request [65], Request [89, 81, 61, 61]]\<rparr>)
     = [Request [65], Request [89, 81, 61, 61]] \<and>
   queue_delay ((initial_bot [])\<lparr>request_queue := [Request [65], Request [89, 81, 61, 61]]\<rparr>)
     < 2 ^ 1024 - 2 ^ 970 \<and>
   decode_name [65] = Inl BinasciiError \<and>
   queue_worker
       [\<lparr>TRIGGERCMD_TOKEN = [], urlopen = (\<lambda>_. OtherError), log_channel = ChannelSends\<rparr>,
        \<lparr>TRIGGERCMD_TOKEN = [], urlopen = (\<lambda>_. OtherError), log_channel = ChannelSends\<rparr>]
       ((initial_bot [])\<lparr>request_queue := [Request [65], Request [89, 81, 61, 61]]\<rparr>)
     = ((initial_bot [])\<lparr>trace :=
          [Dequeued (Request [65]), TriggerCalled [65] False, WorkerError BinasciiError, Slept 10,
           Dequeued (Request [89, 81, 61, 61]), TriggerCalled [89, 81, 61, 61] False,
           LogEmbed (TriggerFailed [97]), Slept 10]\<rparr>, None)"
proof -
  have h: "request_queue ((initial_bot [])\<lparr>request_queue := [Request [65], Request [89, 81, 61, 61]]\<rparr>)
     = [Request [65], Request [89, 81, 61, 61]]" by simp
  have l: "queue_delay ((initial_bot [])\<lparr>request_queue := [Request [65], Request [89, 81, 61, 61]]\<rparr>)
     < 2 ^ 1024 - 2 ^ 970" by (simp add: initial_bot_def)
  have d: "decode_name [65] = Inl BinasciiError" "decode_name [89, 81, 61, 61] = Inr [97]"
    by (simp_all add: decode_name_def b64decode_def a2b_base64_def a2b_loop.simps(2)
        table_a2b_base64_def BASE64_PAD_def)
  have t: "queue_worker
       [\<lparr>TRIGGERCMD_TOKEN = [], urlopen = (\<lambda>_. OtherError), log_channel = ChannelSends\<rparr>,
        \<lparr>TRIGGERCMD_TOKEN = [], urlopen = (\<lambda>_. OtherError), log_channel = ChannelSends\<rparr>]
       ((initial_bot [])\<lparr>request_queue := [Request [65], Request [89, 81, 61, 61]]\<rparr>)
     = ((initial_bot [])\<lparr>trace :=
          [Dequeued (Request [65]), TriggerCalled [65] False, WorkerError BinasciiError, Slept 10,
           Dequeued (Request [89, 81, 61, 61]), TriggerCalled [89, 81, 61, 61] False,
           LogEmbed (TriggerFailed [97]), Slept 10]\<rparr>, None)"
    by (simp add: worker_iteration_def turn_events_def process_request_def send_trigger_cmd_def
        call_trigger_def try_call_trigger_def send_log_embed_def initial_bot_def asyncio_sleep_def
        d Let_def)
  show ?thesis
    using h l d(1) t failing_item_does_not_halt_worker [OF h l,
        of "\<lparr>TRIGGERCMD_TOKEN = [], urlopen = (\<lambda>_. OtherError), log_channel = ChannelSends\<rparr>"
           "\<lparr>TRIGGERCMD_TOKEN = [], urlopen = (\<lambda>_. OtherError), log_channel = ChannelSends\<rparr>" "[]"]
    by simp
qed

text \<open>
  The claim as stated fails for a queue delay that the sleep does not accept. The
  operator submits a 2 followed by 308 zeros in the Set Queue Delay modal, which stores
  it; the worker then takes a request whose \<open>encoded_name\<close> does not decode, catches
  and logs the error, and calls the sleep, which raises \<open>OverflowError\<close> outside the
  \<open>try\<close>: the worker ends there, without a cooldown, and the second request stays in
  the queue.
\<close>

theorem failing_item_counterexample:
  "set_queue_delay (50 # replicate 308 48)
       ((initial_bot [])\<lparr>request_queue := [Request [65], Request [89, 81, 61, 61]]\<rparr>)
     = ((initial_bot [])\<lparr>request_queue := [Request [65], Request [89, 81, 61, 61]],
                         queue_delay := 2 * 10 ^ 308\<rparr>, Replied QueueDelayUpdated) \<and>
   queue_worker
       [\<lparr>TRIGGERCMD_TOKEN = [], urlopen = (\<lambda>_. OtherError), log_channel = ChannelSends\<rparr>,
        \<lparr>TRIGGERCMD_TOKEN = [], urlopen = (\<lambda>_. OtherError), log_channel = ChannelSends\<rparr>]
       ((initial_bot [])\<lparr>request_queue := [Request [65], Request [89, 81, 61, 61]],
                         queue_delay := 2 * 10 ^ 308\<rparr>)
     = ((initial_bot [])\<lparr>request_queue := [Request [89, 81, 61, 61]],
                         queue_delay := 2 * 10 ^ 308,
                         trace := [Dequeued (Request [65]), TriggerCalled [65] False,
                                   WorkerError BinasciiError]\<rparr>,
        Some OverflowError)"
proof -
  have d: "decode_name [65] = Inl BinasciiError"
    by (simp add: decode_name_def b64decode_def a2b_base64_def a2b_loop.simps(2)
        table_a2b_base64_def BASE64_PAD_def)
  have "queue_worker
       [\<lparr>TRIGGERCMD_TOKEN = [], urlopen = (\<lambda>_. OtherError), log_channel = ChannelSends\<rparr>,
        \<lparr>TRIGGERCMD_TOKEN = [], urlopen = (\<lambda>_. OtherError), log_channel = ChannelSends\<rparr>]
       ((initial_bot [])\<lparr>request_queue := [Request [65], Request [89, 81, 61, 61]],
                         queue_delay := 2 * 10 ^ 308\<rparr>)
     = ((initial_bot [])\<lparr>request_queue := [Request [89, 81, 61, 61]],
                         queue_delay := 2 * 10 ^ 308,
                         trace := [Dequeued (Request [65]), TriggerCalled [65] False,
                                   WorkerError BinasciiError]\<rparr>,
        Some OverflowError)"
    by (simp add: worker_iteration_def turn_events_def process_request_def send_trigger_cmd_def
        call_trigger_def try_call_trigger_def send_log_embed_def initial_bot_def asyncio_sleep_def
        d Let_def)
  then show ?thesis by (simp add: set_queue_delay_huge)
qed

text \<open>
  Claim C7, as amended. The cooldown is 10 seconds by default and is what the operator
  last set through the Set Queue Delay modal. Every turn of the worker, whatever its
  outcome, consists of taking the item, events that take no item, and the call of the
  sleep with the configured \<open>queue_delay\<close>; when that is a delay the sleep accepts,
  the turn ends with a sleep of that many seconds. In what the worker adds to the
  trace, an item is taken only at the start or right after such a sleep.
\<close>

theorem cooldown_after_every_turn:
  "queue_delay (initial_bot stored_room) = 10 \<and>
   (py_isdigit seconds \<and> py_int seconds = Inr n \<longrightarrow>
      set_queue_delay seconds b = (b\<lparr>queue_delay := n\<rparr>, Replied QueueDelayUpdated)) \<and>
   (queue_delay b < 2 ^ 1024 - 2 ^ 970 \<longrightarrow>
      (\<exists>mid. worker_iteration e r b
               = (b\<lparr>trace := trace b @ Dequeued r # mid @ [Slept (queue_delay b)]\<rparr>, None) \<and>
             list_all (\<lambda>ev. \<not> is_dequeue ev) mid)) \<and>
   (\<exists>new. trace (fst (queue_worker es b)) = trace b @ new \<and> cooldown_kept (queue_delay b) new)"
proof -
  have "queue_delay b < 2 ^ 1024 - 2 ^ 970 \<longrightarrow>
      (\<exists>mid. worker_iteration e r b
               = (b\<lparr>trace := trace b @ Dequeued r # mid @ [Slept (queue_delay b)]\<rparr>, None) \<and>
             list_all (\<lambda>ev. \<not> is_dequeue ev) mid)"
  proof
    assume "queue_delay b < 2 ^ 1024 - 2 ^ 970"
    then have s: "asyncio_sleep (queue_delay b) = Inr ()" by (simp add: asyncio_sleep_def)
    from turn_events_shape [of e r] obtain mid where
      m: "turn_events e r = Dequeued r # mid" "list_all (\<lambda>ev. \<not> is_dequeue ev) mid" by blast
    from worker_iteration_sleeps [OF s, of e r] m
    show "\<exists>mid. worker_iteration e r b
               = (b\<lparr>trace := trace b @ Dequeued r # mid @ [Slept (queue_delay b)]\<rparr>, None) \<and>
             list_all (\<lambda>ev. \<not> is_dequeue ev) mid"
      by auto
  qed
  then show ?thesis
    using queue_worker_cooldown [of es b]
    by (simp add: initial_bot_def set_queue_delay_def)
qed

theorem cooldown_after_every_turn_witness:
  "queue_delay (initial_bot []) = 10 \<and>
   py_isdigit [49, 53] \<and> py_int [49, 53] = Inr 15 \<and>
   set_queue_delay [49, 53] (initial_bot []) = ((initial_bot [])\<lparr>queue_delay := 15\<rparr>, Replied QueueDelayUpdated) \<and>
   queue_delay ((initial_bot [])\<lparr>request_queue := [Request [65], Request [89, 81, 61, 61]]\<rparr>)
     < 2 ^ 1024 - 2 ^ 970 \<and>
   cooldown_kept 10
     [Dequeued (Request [65]), TriggerCalled [65] False, WorkerError BinasciiError, Slept 10,
      Dequeued (Request [89, 81, 61, 61]), TriggerCalled [89, 81, 61, 61] False,
      LogEmbed (TriggerFailed [97]), Slept 10] \<and>
   \<not> cooldown_kept 10
     [Dequeued (Request [65]), TriggerCalled [65] False, Dequeued (Request [89, 81, 61, 61])] \<and>
   (\<exists>mid. worker_iteration
        \<lparr>TRIGGERCMD_TOKEN = [], urlopen = (\<lambda>_. OtherError), log_channel = ChannelSends\<rparr>
        (Request [65])
        ((initial_bot [])\<lparr>request_queue := [Request [65], Request [89, 81, 61, 61]]\<rparr>)
      = ((initial_bot [])\<lparr>request_queue := [Request [65], Request [89, 81, 61, 61]],
                          trace := Dequeued (Request [65]) # mid @ [Slept 10]\<rparr>, None) \<and>
      list_all (\<lambda>ev. \<not> is_dequeue ev) mid) \<and>
   (\<exists>new. trace (fst (queue_worker
       [\<lparr>TRIGGERCMD_TOKEN = [], urlopen = (\<lambda>_. OtherError), log_channel = ChannelSends\<rparr>,
        \<lparr>TRIGGERCMD_TOKEN = [], urlopen = (\<lambda>_. OtherError), log_channel = ChannelSends\<rparr>]
       ((initial_bot [])\<lparr>request_queue := [Request [65], Request [89, 81, 61, 61]]\<rparr>)))
       = new \<and> cooldown_kept 10 new)"
proof -
  have i: "py_isdigit [49, 53]" "py_int [49, 53] = Inr 15"
    by (simp_all add: py_isdigit_def isdigit_char_def in_ranges_def digit_ranges_def
        py_int_def decimal_value_def decimal_ranges_def)
  have l: "queue_delay ((initial_bot [])\<lparr>request_queue := [Request [65], Request [89, 81, 61, 61]]\<rparr>)
     < 2 ^ 1024 - 2 ^ 970" by (simp add: initial_bot_def)
  from cooldown_after_every_turn [of "[]" "[49, 53]" 15 "initial_bot []"]
  have 1: "set_queue_delay [49, 53] (initial_bot [])
             = ((initial_bot [])\<lparr>queue_delay := 15\<rparr>, Replied QueueDelayUpdated)"
    using i by simp
  from cooldown_after_every_turn [of "[]" "[49, 53]" 15
      "(initial_bot [])\<lparr>request_queue := [Request [65], Request [89, 81, 61, 61]]\<rparr>"
      "\<lparr>TRIGGERCMD_TOKEN = [], urlopen = (\<lambda>_. OtherError), log_channel = ChannelSends\<rparr>"
      "Request [65]"
      "[\<lparr>TRIGGERCMD_TOKEN = [], urlopen = (\<lambda>_. OtherError), log_channel = ChannelSends\<rparr>,
        \<lparr>TRIGGERCMD_TOKEN = [], urlopen = (\<lambda>_. OtherError), log_channel = ChannelSends\<rparr>]"] l
  have 2: "(\<exists>mid. worker_iteration
        \<lparr>TRIGGERCMD_TOKEN = [], urlopen = (\<lambda>_. OtherError), log_channel = ChannelSends\<rparr>
        (Request [65])
        ((initial_bot [])\<lparr>request_queue := [Request [65], Request [89, 81, 61, 61]]\<rparr>)
      = ((initial_bot [])\<lparr>request_queue := [Request [65], Request [89, 81, 61, 61]],
                          trace := Dequeued (Request [65]) # mid @ [Slept 10]\<rparr>, None) \<and>
      list_all (\<lambda>ev. \<not> is_dequeue ev) mid) \<and>
   (\<exists>new. trace (fst (queue_worker
       [\<lparr>TRIGGERCMD_TOKEN = [], urlopen = (\<lambda>_. OtherError), log_channel = ChannelSends\<rparr>,
        \<lparr>TRIGGERCMD_TOKEN = [], urlopen = (\<lambda>_. OtherError), log_channel = ChannelSends\<rparr>]
       ((initial_bot [])\<lparr>request_queue := [Request [65], Request [89, 81, 61, 61]]\<rparr>)))
       = new \<and> cooldown_kept 10 new)"
    by (simp add: initial_bot_def del: queue_worker.simps)
  show ?thesis using i l 1 2 by (simp add: initial_bot_def del: queue_worker.simps)
qed

text \<open>
  The claim as stated fails for a queue delay that the sleep does not accept. The
  operator submits a 2 followed by 308 zeros in the Set Queue Delay modal, which stores
  it as the cooldown. After the next item, here one whose trigger call succeeds, the
  worker does not sleep: \<open>asyncio.sleep\<close> raises \<open>OverflowError\<close> and the turn ends
  with that exception, the trace without a \<open>Slept\<close>.
\<close>

theorem cooldown_counterexample:
  "set_queue_delay (50 # replicate 308 48) (initial_bot [])
     = ((initial_bot [])\<lparr>queue_delay := 2 * 10 ^ 308\<rparr>, Replied QueueDelayUpdated) \<and>
   worker_iteration
       \<lparr>TRIGGERCMD_TOKEN = [116], urlopen = (\<lambda>_. Response True), log_channel = ChannelSends\<rparr>
       (Request [89, 81, 61, 61])
       ((initial_bot [])\<lparr>queue_delay := 2 * 10 ^ 308\<rparr>)
     = ((initial_bot [])\<lparr>queue_delay := 2 * 10 ^ 308,
                         trace := [Dequeued (Request [89, 81, 61, 61]),
                                   TriggerCalled [89, 81, 61, 61] True,
                                   LogEmbed (CohostAssigned [97])]\<rparr>,
        Some OverflowError)"
proof -
  have d: "decode_name [89, 81, 61, 61] = Inr [97]"
    by (simp add: decode_name_def b64decode_def a2b_base64_def a2b_loop.simps(2)
        table_a2b_base64_def BASE64_PAD_def)
  have "worker_iteration
       \<lparr>TRIGGERCMD_TOKEN = [116], urlopen = (\<lambda>_. Response True), log_channel = ChannelSends\<rparr>
       (Request [89, 81, 61, 61])
       ((initial_bot [])\<lparr>queue_delay := 2 * 10 ^ 308\<rparr>)
     = ((initial_bot [])\<lparr>queue_delay := 2 * 10 ^ 308,
                         trace := [Dequeued (Request [89, 81, 61, 61]),
                                   TriggerCalled [89, 81, 61, 61] True,
                                   LogEmbed (CohostAssigned [97])]\<rparr>,
        Some OverflowError)"
    by (simp add: worker_iteration_def turn_events_def process_request_def send_trigger_cmd_def
        call_trigger_def try_call_trigger_def send_log_embed_def initial_bot_def asyncio_sleep_def
        d Let_def)
  then show ?thesis by (simp add: set_queue_delay_huge)
qed

section \<open>The room number\<close>

lemma ascii_digit_isdigit: "ascii_digit c \<Longrightarrow> isdigit_char c"
  by (simp add: ascii_digit_def isdigit_char_def in_ranges_def digit_ranges_def)

lemma ascii_digits_isdigit: "list_all ascii_digit s \<Longrightarrow> list_all isdigit_char s"
  by (induction s) (simp_all add: ascii_digit_isdigit)

text \<open>
  Claim C4, as amended. The room number is accepted exactly when the input, after
  \<open>strip()\<close>, is a string of exactly 11 characters for which \<open>str.isdigit()\<close> holds
  (the ASCII digits and the other digit characters of Unicode); eleven ASCII digits are
  always accepted. An accepted input sets the global \<open>room_number\<close> to the stripped
  input and is saved, and the reply says so when the save raises nothing. Any other input
  is answered as invalid and leaves the whole state, in memory and stored, as it was.
\<close>

theorem update_room_number_accepts:
  "(update_room_number v s = (s, Replied InvalidRoomNumber))
     = (\<not> (py_isdigit (py_strip v) \<and> length (py_strip v) = 11)) \<and>
   (py_isdigit (py_strip v) \<and> length (py_strip v) = 11 \<longrightarrow>
      room_number (snd (fst (update_room_number v s))) = py_strip v \<and>
      (\<forall>w'. save_room_number (py_strip v) (fst s) = Inr w' \<longrightarrow>
         update_room_number v s
           = ((w', (snd s)\<lparr>room_number := py_strip v\<rparr>), Replied (RoomNumberUpdated (py_strip v)))) \<and>
      (\<forall>e w'. save_room_number (py_strip v) (fst s) = Inl (e, w') \<longrightarrow>
         update_room_number v s = ((w', (snd s)\<lparr>room_number := py_strip v\<rparr>), Raised e))) \<and>
   (list_all ascii_digit (py_strip v) \<and> length (py_strip v) = 11 \<longrightarrow>
      py_isdigit (py_strip v))"
proof -
  have "list_all ascii_digit (py_strip v) \<and> length (py_strip v) = 11 \<longrightarrow> py_isdigit (py_strip v)"
    using ascii_digits_isdigit [of "py_strip v"] by (auto simp add: py_isdigit_def)
  then show ?thesis
    by (auto simp add: update_room_number_def Let_def split: sum.splits prod.splits)
qed

lemma save_room_number_fresh:
  "save_room_number v fresh_world
     = Inr (fresh_world\<lparr>data_file := Document (Dict [''hostbot'' \<mapsto> Namespace
              (empty_namespace\<lparr>room_number_entry := Some v\<rparr>)])\<rparr>)"
  by (simp add: save_room_number_def load_modify_save_def load_data_def get_realtime_db_def
      read_data_file_def update_namespace_def save_data_def write_data_file_def fresh_world_def
      DATA_USER_PATH_def)

theorem update_room_number_accepts_witness:
  "update_room_number (map of_char ''12345678901'') (fresh_world, initial_bot [])
     = ((fresh_world\<lparr>data_file := Document (Dict [''hostbot'' \<mapsto> Namespace
              (empty_namespace\<lparr>room_number_entry := Some (map of_char ''12345678901'')\<rparr>)])\<rparr>,
         (initial_bot [])\<lparr>room_number := map of_char ''12345678901''\<rparr>),
        Replied (RoomNumberUpdated (map of_char ''12345678901''))) \<and>
   snd (update_room_number (map of_char '' 12345678901 '') (fresh_world, initial_bot []))
     = Replied (RoomNumberUpdated (map of_char ''12345678901'')) \<and>
   update_room_number (map of_char ''1234567890'') (fresh_world, initial_bot [])
     = ((fresh_world, initial_bot []), Replied InvalidRoomNumber) \<and>
   update_room_number (map of_char ''123456789012'') (fresh_world, initial_bot [])
     = ((fresh_world, initial_bot []), Replied InvalidRoomNumber) \<and>
   update_room_number (map of_char ''1234567890a'') (fresh_world, initial_bot [])
     = ((fresh_world, initial_bot []), Replied InvalidRoomNumber)"
proof -
  have s: "py_strip (map of_char ''12345678901'') = map of_char ''12345678901''"
    "py_strip (map of_char '' 12345678901 '') = map of_char ''12345678901''"
    "py_strip (map of_char ''1234567890'') = map of_char ''1234567890''"
    "py_strip (map of_char ''123456789012'') = map of_char ''123456789012''"
    "py_strip (map of_char ''1234567890a'') = map of_char ''1234567890a''"
    by (simp_all add: py_strip_def isspace_char_def in_ranges_def space_ranges_def)
  have d: "py_isdigit (map of_char ''12345678901'')"
    "\<not> py_isdigit (map of_char ''1234567890a'')"
    by (simp_all add: py_isdigit_def isdigit_char_def in_ranges_def digit_ranges_def)
  show ?thesis
    using update_room_number_accepts [of "map of_char ''12345678901''" "(fresh_world, initial_bot [])"]
      update_room_number_accepts [of "map of_char '' 12345678901 ''" "(fresh_world, initial_bot [])"]
      update_room_number_accepts [of "map of_char ''1234567890''" "(fresh_world, initial_bot [])"]
      update_room_number_accepts [of "map of_char ''123456789012''" "(fresh_world, initial_bot [])"]
      update_room_number_accepts [of "map of_char ''1234567890a''" "(fresh_world, initial_bot [])"]
    unfolding s using d by (simp add: save_room_number_fresh)
qed

text \<open>
  The claim as stated fails: eleven Arabic-Indic digits (\<open>U+0661\<close>) are not ASCII
  digits, and the room number is set to them, in memory and in the data file.
\<close>

theorem update_room_number_counterexample:
  "\<not> list_all ascii_digit [1633, 1633, 1633, 1633, 1633, 1633, 1633, 1633, 1633, 1633, 1633] \<and>
   update_room_number [1633, 1633, 1633, 1633, 1633, 1633, 1633, 1633, 1633, 1633, 1633]
          (fresh_world, initial_bot [])
     = ((fresh_world\<lparr>data_file := Document (Dict [''hostbot'' \<mapsto> Namespace
              (empty_namespace\<lparr>room_number_entry :=
                 Some [1633, 1633, 1633, 1633, 1633, 1633, 1633, 1633, 1633, 1633, 1633]\<rparr>)])\<rparr>,
         (initial_bot [])\<lparr>room_number :=
            [1633, 1633, 1633, 1633, 1633, 1633, 1633, 1633, 1633, 1633, 1633]\<rparr>),
        Replied (RoomNumberUpdated
          [1633, 1633, 1633, 1633, 1633, 1633, 1633, 1633, 1633, 1633, 1633]))"
  by (simp add: update_room_number_def Let_def py_strip_def py_isdigit_def isspace_char_def
      isdigit_char_def in_ranges_def space_ranges_def digit_ranges_def ascii_digit_def
      save_room_number_fresh)

end
